theory Spec2Isabelle
  imports Complex_Main
begin

section \<open>Conventions of the embedding\<close>

text \<open>
  The functions of \<^verbatim>\<open>dashboard.py\<close> and \<^verbatim>\<open>widget.py\<close> that reconcile Nightscout
  records are embedded as HOL functions.

  \<^item> An instant (an aware \<^verbatim>\<open>datetime\<close>) is an integer: microseconds since the epoch, the
    resolution of Python's \<^verbatim>\<open>datetime\<close>. One minute is \<open>60000000\<close>.
  \<^item> A Python \<^verbatim>\<open>float\<close> is a \<open>real\<close>: arithmetic is exact, there is no rounding and no
    infinity. NaN appears only where the source uses it as the "absent" marker of a
    temp-basal field, and is then \<open>None\<close> of a \<open>real option\<close>.
  \<^item> A Python \<^verbatim>\<open>dict\<close> is an association list read with \<open>map_of\<close>.
  \<^item> The local time zone is a function from an instant to the UTC offset in seconds that
    is in force at that instant.
\<close>

type_synonym instant = int

definition MINUTE :: int where
  "MINUTE = 60000000"

section \<open>The basal reconciler\<close>

subsection \<open>\<^verbatim>\<open>current_plan_basal\<close>\<close>

text \<open>
  \<^verbatim>\<open>secs = local.hour * 3600 + local.minute * 60 + local.second\<close>: the second of the local
  day, the microseconds of the instant being dropped.
\<close>

definition local_secs :: "(instant \<Rightarrow> int) \<Rightarrow> instant \<Rightarrow> int" where
  "local_secs utcoffset t = (t div 1000000 + utcoffset t) mod 86400"

text \<open>
  The loop \<^verbatim>\<open>for k in keys: if k <= secs: current = plan[k] else: break\<close>, with
  \<open>current\<close> passed along.
\<close>

fun scan_keys :: "(int \<times> real) list \<Rightarrow> int \<Rightarrow> int list \<Rightarrow> real option \<Rightarrow> real option" where
  "scan_keys plan secs [] current = current"
| "scan_keys plan secs (k # ks) current =
     (if k \<le> secs then scan_keys plan secs ks (map_of plan k) else current)"

definition current_plan_basal ::
  "(instant \<Rightarrow> int) \<Rightarrow> (int \<times> real) list \<Rightarrow> instant \<Rightarrow> real option" where
  "current_plan_basal utcoffset plan t =
     (if plan = [] then None
      else
        let secs = local_secs utcoffset t;
            keys = sort (remdups (map fst plan))
        in (case scan_keys plan secs keys None of
              None \<Rightarrow> map_of plan (last keys)
            | Some current \<Rightarrow> Some current))"

subsection \<open>\<^verbatim>\<open>build_basal_series\<close>\<close>

text \<open>
  An element of the list \<^verbatim>\<open>temps\<close>: the dict with the keys \<^verbatim>\<open>start\<close>,
  \<^verbatim>\<open>duration\<close>, \<^verbatim>\<open>percent\<close> and \<^verbatim>\<open>absolute\<close> that \<^verbatim>\<open>split_events\<close> builds. The two
  rates are floats that are NaN when the record had none: \<open>None\<close> here.
\<close>

record temp_basal =
  start :: instant
  duration :: int
  percent :: "real option"
  absolute :: "real option"

text \<open>A row of the returned data frame: the index and its three columns.\<close>

record basal_row =
  row_time :: instant
  plan_u_per_h :: real
  actual_u_per_h :: real
  is_temp :: int

text \<open>
  \<^verbatim>\<open>pd.date_range(start, end, freq="1min")\<close>: \<open>start\<close>, \<open>start\<close> plus one minute, and so
  on, as long as \<open>end\<close> is not passed; empty when \<open>end\<close> is before \<open>start\<close>.
\<close>

definition date_range :: "instant \<Rightarrow> instant \<Rightarrow> instant list" where
  "date_range s e = map (\<lambda>k. s + MINUTE * int k) [0 ..< nat ((e - s) div MINUTE + 1)]"

text \<open>\<^verbatim>\<open>plan_at\<close>: \<^verbatim>\<open>current_plan_basal(plan, t) or 0.0\<close>.\<close>

definition plan_at :: "(instant \<Rightarrow> int) \<Rightarrow> (int \<times> real) list \<Rightarrow> instant \<Rightarrow> real" where
  "plan_at utcoffset plan t =
     (case current_plan_basal utcoffset plan t of None \<Rightarrow> 0 | Some r \<Rightarrow> r)"

text \<open>
  \<^verbatim>\<open>mask = (df.index >= start_local) & (df.index < end_local)\<close>, for one index value.
\<close>

definition in_mask :: "temp_basal \<Rightarrow> instant \<Rightarrow> bool" where
  "in_mask temp t = (start temp \<le> t \<and> t < start temp + duration temp * MINUTE)"

text \<open>The body of \<^verbatim>\<open>for temp in temps\<close>, on the rows of the frame.\<close>

definition apply_temp :: "basal_row list \<Rightarrow> temp_basal \<Rightarrow> basal_row list" where
  "apply_temp rows temp =
     (if \<exists>r \<in> set rows. in_mask temp (row_time r) then
        (case absolute temp of
           Some a \<Rightarrow>
             map (\<lambda>r. if in_mask temp (row_time r) then r\<lparr>actual_u_per_h := a\<rparr> else r) rows
         | None \<Rightarrow>
             (case percent temp of
                Some p \<Rightarrow>
                  map (\<lambda>r. if in_mask temp (row_time r)
                           then r\<lparr>actual_u_per_h := plan_u_per_h r * (p / 100)\<rparr> else r) rows
              | None \<Rightarrow> rows))
      else rows)"

definition build_basal_series ::
  "(instant \<Rightarrow> int) \<Rightarrow> (int \<times> real) list \<Rightarrow> temp_basal list \<Rightarrow> instant \<Rightarrow> instant
     \<Rightarrow> basal_row list" where
  "build_basal_series utcoffset plan temps s e =
     (let idx = date_range s e;
          df = map (\<lambda>t. \<lparr>row_time = t,
                          plan_u_per_h = plan_at utcoffset plan t,
                          actual_u_per_h = plan_at utcoffset plan t,
                          is_temp = 0\<rparr>) idx;
          df' = foldl apply_temp df temps
      in map (\<lambda>r. r\<lparr>is_temp := (if actual_u_per_h r \<noteq> plan_u_per_h r then 1 else 0)\<rparr>) df')"

section \<open>Raw records\<close>

text \<open>
  What \<^verbatim>\<open>requests\<close> hands over after decoding JSON. A Python \<^verbatim>\<open>bool\<close> is an
  \<^verbatim>\<open>int\<close>, so \<^verbatim>\<open>isinstance(v, (int, float))\<close> accepts the three constructors
  \<open>JBool\<close>, \<open>JInt\<close> and \<open>JFloat\<close>.
\<close>

datatype json =
    JNull
  | JBool bool
  | JInt int
  | JFloat real
  | JStr string
  | JList "json list"
  | JDict "(string \<times> json) list"

type_synonym pydict = "(string \<times> json) list"

text \<open>\<^verbatim>\<open>t.get(k)\<close>: \<^verbatim>\<open>None\<close> for a missing key.\<close>

definition get :: "pydict \<Rightarrow> string \<Rightarrow> json" where
  "get t k = (case map_of t k of None \<Rightarrow> JNull | Some v \<Rightarrow> v)"

text \<open>Python's truth value of an object, and \<^verbatim>\<open>a or b\<close>.\<close>

fun truthy :: "json \<Rightarrow> bool" where
  "truthy JNull = False"
| "truthy (JBool b) = b"
| "truthy (JInt n) = (n \<noteq> 0)"
| "truthy (JFloat r) = (r \<noteq> 0)"
| "truthy (JStr s) = (s \<noteq> [])"
| "truthy (JList xs) = (xs \<noteq> [])"
| "truthy (JDict kvs) = (kvs \<noteq> [])"

definition por :: "json \<Rightarrow> json \<Rightarrow> json" where
  "por a b = (if truthy a then a else b)"

text \<open>
  \<^verbatim>\<open>isinstance(v, (int, float))\<close> together with \<^verbatim>\<open>float(v)\<close>: \<open>Some\<close> of the value
  for a number, \<open>None\<close> for anything else.
\<close>

fun number :: "json \<Rightarrow> real option" where
  "number (JBool b) = Some (if b then 1 else 0)"
| "number (JInt n) = Some (real_of_int n)"
| "number (JFloat r) = Some r"
| "number JNull = None"
| "number (JStr s) = None"
| "number (JList xs) = None"
| "number (JDict kvs) = None"

text \<open>
  Library functions that the source calls on strings and arbitrary objects. They are not
  code of the repository and stay parameters: \<open>isoparse\<close> is
  \<^verbatim>\<open>dateutil.parser.isoparse\<close> followed by the source's "naive means UTC" step, giving
  the instant; \<open>float_of_str\<close> and \<open>int_of_str\<close> are \<^verbatim>\<open>float\<close> and \<^verbatim>\<open>int\<close> on a
  string; \<open>str_of\<close> is \<^verbatim>\<open>str\<close> on an object that is not a string. \<open>None\<close> stands for
  the exception the call raises. \<open>timestamp_ok\<close> tells which numbers of seconds
  \<^verbatim>\<open>datetime.fromtimestamp\<close> accepts on the platform; it raises on the others.
\<close>

record pylib =
  isoparse :: "string \<Rightarrow> instant option"
  float_of_str :: "string \<Rightarrow> real option"
  int_of_str :: "string \<Rightarrow> int option"
  str_of :: "json \<Rightarrow> string"
  timestamp_ok :: "real \<Rightarrow> bool"

datatype py_error = AttributeError | TypeError | ValueError | OverflowError

text \<open>\<^verbatim>\<open>str.lower\<close> on the ASCII letters, and \<^verbatim>\<open>sub in s\<close> on strings.\<close>

definition lower_char :: "char \<Rightarrow> char" where
  "lower_char c =
     (case map_of (zip ''ABCDEFGHIJKLMNOPQRSTUVWXYZ'' ''abcdefghijklmnopqrstuvwxyz'') c of
        None \<Rightarrow> c | Some d \<Rightarrow> d)"

definition lower :: "string \<Rightarrow> string" where
  "lower s = map lower_char s"

primrec contains :: "string \<Rightarrow> string \<Rightarrow> bool" where
  "contains sub [] = (sub = [])"
| "contains sub (c # cs) = (take (length sub) (c # cs) = sub \<or> contains sub cs)"

text \<open>\<^verbatim>\<open>v.replace(",", ".")\<close>.\<close>

definition replace_comma :: "string \<Rightarrow> string" where
  "replace_comma s = map (\<lambda>c. if c = CHR '','' then CHR ''.'' else c) s"

section \<open>The time normalizer\<close>

text \<open>
  \<^verbatim>\<open>dt.datetime.fromtimestamp(ms / 1000.0, tz=utc)\<close>, which rounds to the microsecond and
  raises on a number of seconds that the platform cannot turn into a date. The source calls
  it outside any handler, except in \<^verbatim>\<open>fetch_latest_sensor_change\<close>. The exception is
  \<open>OverflowError\<close> here; Python may also raise \<^verbatim>\<open>OSError\<close> or \<^verbatim>\<open>ValueError\<close>.
\<close>

definition fromtimestamp_ms :: "pylib \<Rightarrow> real \<Rightarrow> py_error + instant" where
  "fromtimestamp_ms L ms =
     (if timestamp_ok L (ms / 1000) then Inr (round (ms * 1000)) else Inl OverflowError)"

text \<open>
  \<^verbatim>\<open>try: ts = isoparse(ts_raw) ... except Exception: ts = None\<close>. On an object that is
  not a string \<^verbatim>\<open>isoparse\<close> raises, which the handler turns into \<^verbatim>\<open>None\<close> too.
\<close>

definition parse_iso :: "pylib \<Rightarrow> json \<Rightarrow> instant option" where
  "parse_iso L v = (case v of JStr s \<Rightarrow> isoparse L s | _ \<Rightarrow> None)"

text \<open>
  \<^verbatim>\<open>fromtimestamp(ms / 1000.0, tz=utc) if isinstance(ms, (int, float)) else None\<close>.
\<close>

definition epoch_ms :: "pylib \<Rightarrow> json \<Rightarrow> py_error + instant option" where
  "epoch_ms L ms =
     (case number ms of
        None \<Rightarrow> Inr None
      | Some x \<Rightarrow> (case fromtimestamp_ms L x of Inl err \<Rightarrow> Inl err | Inr ts \<Rightarrow> Inr (Some ts)))"

text \<open>The timestamp of a glucose entry, lines 84 to 94 of \<^verbatim>\<open>fetch_entries\<close>.\<close>

definition entry_ts :: "pylib \<Rightarrow> pydict \<Rightarrow> py_error + instant option" where
  "entry_ts L e =
     (let ts_raw = por (get e ''dateString'') (get e ''created_at'')
      in if truthy ts_raw then Inr (parse_iso L ts_raw)
         else epoch_ms L (get e ''date''))"

text \<open>
  A row that the loop of \<^verbatim>\<open>fetch_entries\<close> appends; \<open>Inr None\<close> is \<^verbatim>\<open>continue\<close>, and
  \<open>Inl\<close> an exception, which leaves the function. The data frame built from the rows
  afterwards is not modelled.
\<close>

record entry_row =
  entry_time :: instant
  mgdl :: real
  direction :: json

definition fetch_entries_row :: "pylib \<Rightarrow> pydict \<Rightarrow> py_error + entry_row option" where
  "fetch_entries_row L e =
     (let val = por (por (get e ''sgv'') (get e ''mbg'')) (get e ''glucose'')
      in case number val of
           None \<Rightarrow> Inr None
         | Some v \<Rightarrow>
             (case entry_ts L e of
                Inl err \<Rightarrow> Inl err
              | Inr None \<Rightarrow> Inr None
              | Inr (Some ts) \<Rightarrow>
                  Inr (Some \<lparr>entry_time = ts, mgdl = v, direction = get e ''direction''\<rparr>)))"

fun fetch_entries_loop :: "pylib \<Rightarrow> entry_row list \<Rightarrow> pydict list \<Rightarrow> py_error + entry_row list" where
  "fetch_entries_loop L rows [] = Inr rows"
| "fetch_entries_loop L rows (e # es) =
     (case fetch_entries_row L e of
        Inl err \<Rightarrow> Inl err
      | Inr None \<Rightarrow> fetch_entries_loop L rows es
      | Inr (Some r) \<Rightarrow> fetch_entries_loop L (rows @ [r]) es)"

definition fetch_entries_rows :: "pylib \<Rightarrow> pydict list \<Rightarrow> py_error + entry_row list" where
  "fetch_entries_rows L data = fetch_entries_loop L [] data"

text \<open>
  The timestamp of a treatment, lines 267 to 279 of \<^verbatim>\<open>split_events\<close>. Lines 457 to 469
  of \<^verbatim>\<open>fallback_bolus_iob\<close> and lines 395 to 407 of \<^verbatim>\<open>_fallback_bolus_iob\<close> in
  \<^verbatim>\<open>widget.py\<close> are the same statements.
\<close>

definition treatment_ts :: "pylib \<Rightarrow> pydict \<Rightarrow> py_error + instant option" where
  "treatment_ts L t =
     (let ts_raw = por (por (get t ''created_at'') (get t ''timestamp'')) (get t ''dateString'')
      in if \<not> truthy ts_raw then epoch_ms L (por (get t ''mills'') (get t ''date''))
         else Inr (parse_iso L ts_raw))"

text \<open>
  The timestamp of the record found by \<^verbatim>\<open>fetch_latest_sensor_change\<close>, lines 238 to 253:
  here the epoch field is read whenever the string gave nothing, and the handler around
  the whole function turns an exception into \<^verbatim>\<open>None\<close>.
\<close>

definition sensor_change_ts :: "pylib \<Rightarrow> pydict \<Rightarrow> instant option" where
  "sensor_change_ts L t0 =
     (let ts_raw = por (por (get t0 ''created_at'') (get t0 ''timestamp'')) (get t0 ''dateString'');
          ts = (if truthy ts_raw then parse_iso L ts_raw else None)
      in case ts of
           None \<Rightarrow>
             (case epoch_ms L (por (get t0 ''mills'') (get t0 ''date'')) of
                Inl err \<Rightarrow> None
              | Inr x \<Rightarrow> x)
         | Some x \<Rightarrow> Some x)"

section \<open>The record classifier: \<^verbatim>\<open>split_events\<close>\<close>

text \<open>The dicts appended to the four lists that \<^verbatim>\<open>split_events\<close> returns.\<close>

record bolus =
  bolus_time :: instant
  units :: real
  is_smb :: bool

record carb =
  carb_time :: instant
  grams :: real

record events =
  bolus_big :: "bolus list"
  bolus_mini :: "bolus list"
  carbs :: "carb list"
  temps :: "temp_basal list"

text \<open>
  \<^verbatim>\<open>(t.get(k) or "").lower()\<close>: an object that is true and not a string has no
  \<^verbatim>\<open>lower\<close>.
\<close>

definition lower_or_empty :: "json \<Rightarrow> py_error + string" where
  "lower_or_empty v =
     (if truthy v then (case v of JStr s \<Rightarrow> Inr (lower s) | _ \<Rightarrow> Inl AttributeError)
      else Inr [])"

text \<open>
  \<^verbatim>\<open>[str(x).lower() for x in (t.get("tags") or [])]\<close>. Iterating a string gives its
  characters, iterating a dict its keys; a number that is true cannot be iterated.
\<close>

definition py_str :: "pylib \<Rightarrow> json \<Rightarrow> string" where
  "py_str L x = (case x of JStr s \<Rightarrow> s | _ \<Rightarrow> str_of L x)"

definition tags_lower :: "pylib \<Rightarrow> json \<Rightarrow> py_error + string list" where
  "tags_lower L v =
     (if \<not> truthy v then Inr []
      else (case v of
              JList xs \<Rightarrow> Inr (map (\<lambda>x. lower (py_str L x)) xs)
            | JStr s \<Rightarrow> Inr (map (\<lambda>c. lower [c]) s)
            | JDict kvs \<Rightarrow> Inr (map (\<lambda>kv. lower (fst kv)) kvs)
            | _ \<Rightarrow> Inl TypeError))"

text \<open>\<^verbatim>\<open>int(x)\<close> and \<^verbatim>\<open>float(x)\<close> on an object.\<close>

definition py_int :: "pylib \<Rightarrow> json \<Rightarrow> py_error + int" where
  "py_int L x =
     (case x of
        JInt n \<Rightarrow> Inr n
      | JBool b \<Rightarrow> Inr (if b then 1 else 0)
      | JFloat r \<Rightarrow> Inr (if 0 \<le> r then \<lfloor>r\<rfloor> else \<lceil>r\<rceil>)
      | JStr s \<Rightarrow> (case int_of_str L s of None \<Rightarrow> Inl ValueError | Some n \<Rightarrow> Inr n)
      | _ \<Rightarrow> Inl TypeError)"

definition py_float :: "pylib \<Rightarrow> json \<Rightarrow> py_error + real" where
  "py_float L x =
     (case number x of
        Some r \<Rightarrow> Inr r
      | None \<Rightarrow>
          (case x of
             JStr s \<Rightarrow> (case float_of_str L s of None \<Rightarrow> Inl ValueError | Some r \<Rightarrow> Inr r)
           | _ \<Rightarrow> Inl TypeError))"

text \<open>
  \<^verbatim>\<open>float(t.get(k, np.nan)) if t.get(k) is not None else np.nan\<close>, NaN being \<open>None\<close>.
\<close>

definition float_or_nan :: "pylib \<Rightarrow> pydict \<Rightarrow> string \<Rightarrow> py_error + real option" where
  "float_or_nan L t k =
     (if get t k = JNull then Inr None
      else (case py_float L (get t k) of Inl err \<Rightarrow> Inl err | Inr r \<Rightarrow> Inr (Some r)))"

text \<open>The dict appended to \<^verbatim>\<open>temps\<close>; its values are evaluated in the order written.\<close>

definition temp_of :: "pylib \<Rightarrow> pydict \<Rightarrow> instant \<Rightarrow> py_error + temp_basal" where
  "temp_of L t ts =
     (case (case map_of t ''duration'' of None \<Rightarrow> Inr 0 | Some d \<Rightarrow> py_int L d) of
        Inl err \<Rightarrow> Inl err
      | Inr dur \<Rightarrow>
          (case float_or_nan L t ''percent'' of
             Inl err \<Rightarrow> Inl err
           | Inr pct \<Rightarrow>
               (case float_or_nan L t ''absolute'' of
                  Inl err \<Rightarrow> Inl err
                | Inr ab \<Rightarrow>
                    Inr \<lparr>start = ts, duration = dur, percent = pct, absolute = ab\<rparr>)))"

text \<open>
  The loop over the dose keys: the first key whose value is a number, or a string that
  \<^verbatim>\<open>float\<close> accepts once the comma is a point, ends the search.
\<close>

definition DOSE_KEYS :: "string list" where
  "DOSE_KEYS = [''insulin'', ''insulinInUnits'', ''amount'', ''units'', ''value'']"

fun search_units :: "pylib \<Rightarrow> pydict \<Rightarrow> string list \<Rightarrow> real option" where
  "search_units L t [] = None"
| "search_units L t (k # ks) =
     (case number (get t k) of
        Some u \<Rightarrow> Some u
      | None \<Rightarrow>
          (case get t k of
             JStr s \<Rightarrow>
               (case float_of_str L (replace_comma s) of
                  Some u \<Rightarrow> Some u
                | None \<Rightarrow> search_units L t ks)
           | _ \<Rightarrow> search_units L t ks))"

definition smb_marked :: "string \<Rightarrow> string \<Rightarrow> string list \<Rightarrow> bool" where
  "smb_marked et t_type tags =
     (t_type = ''smb'' \<or> contains ''smb'' t_type \<or> (\<exists>tg \<in> set tags. contains ''smb'' tg)
      \<or> contains ''smb'' et)"

text \<open>The \<^verbatim>\<open>else\<close> branch: carbs, then bolus.\<close>

definition carbs_and_bolus ::
  "pylib \<Rightarrow> events \<Rightarrow> pydict \<Rightarrow> string \<Rightarrow> string \<Rightarrow> string list \<Rightarrow> instant \<Rightarrow> events" where
  "carbs_and_bolus L ev t et t_type tags ts =
     (let carbs_val = por (get t ''carbs'') (get t ''carb_input'');
          ev1 = (case number carbs_val of
                   Some g \<Rightarrow>
                     if g > 0 then ev\<lparr>carbs := carbs ev @ [\<lparr>carb_time = ts, grams = g\<rparr>]\<rparr>
                     else ev
                 | None \<Rightarrow> ev)
      in case search_units L t DOSE_KEYS of
           None \<Rightarrow> ev1
         | Some u \<Rightarrow>
             if u \<noteq> 0 \<and> u > 0 then
               (if smb_marked et t_type tags
                then ev1\<lparr>bolus_mini :=
                           bolus_mini ev1 @ [\<lparr>bolus_time = ts, units = u, is_smb = True\<rparr>]\<rparr>
                else ev1\<lparr>bolus_big :=
                           bolus_big ev1 @ [\<lparr>bolus_time = ts, units = u, is_smb = False\<rparr>]\<rparr>)
             else ev1)"

text \<open>
  The body of \<^verbatim>\<open>for t in treatments\<close>. \<open>Inl\<close> is an exception, which leaves
  \<^verbatim>\<open>split_events\<close> at once; a record without a timestamp is skipped.
\<close>

definition split_step :: "pylib \<Rightarrow> events \<Rightarrow> pydict \<Rightarrow> py_error + events" where
  "split_step L ev t =
     (case lower_or_empty (get t ''eventType'') of
        Inl err \<Rightarrow> Inl err
      | Inr et \<Rightarrow>
     (case lower_or_empty (get t ''type'') of
        Inl err \<Rightarrow> Inl err
      | Inr t_type \<Rightarrow>
     (case tags_lower L (get t ''tags'') of
        Inl err \<Rightarrow> Inl err
      | Inr tags \<Rightarrow>
     (case treatment_ts L t of
        Inl err \<Rightarrow> Inl err
      | Inr None \<Rightarrow> Inr ev
      | Inr (Some ts) \<Rightarrow>
          if et = ''temp basal'' then
            (case temp_of L t ts of
               Inl err \<Rightarrow> Inl err
             | Inr tb \<Rightarrow> Inr (ev\<lparr>temps := temps ev @ [tb]\<rparr>))
          else Inr (carbs_and_bolus L ev t et t_type tags ts)))))"

fun split_loop :: "pylib \<Rightarrow> events \<Rightarrow> pydict list \<Rightarrow> py_error + events" where
  "split_loop L ev [] = Inr ev"
| "split_loop L ev (t # ts) =
     (case split_step L ev t of Inl err \<Rightarrow> Inl err | Inr ev' \<Rightarrow> split_loop L ev' ts)"

definition no_events :: events where
  "no_events = \<lparr>bolus_big = [], bolus_mini = [], carbs = [], temps = []\<rparr>"

definition split_events :: "pylib \<Rightarrow> pydict list \<Rightarrow> py_error + events" where
  "split_events L treatments = split_loop L no_events treatments"

section \<open>The metric estimator\<close>

subsection \<open>\<^verbatim>\<open>fallback_bolus_iob\<close>\<close>

definition DIA_MINUTES :: real where
  "DIA_MINUTES = 300"

definition T_HALF :: real where
  "T_HALF = 60"

text \<open>
  \<^verbatim>\<open>_units\<close>: the dose keys as in \<^verbatim>\<open>split_events\<close>, then the numbers of a nested
  \<^verbatim>\<open>bolus\<close> dict.
\<close>

fun search_numbers :: "pydict \<Rightarrow> string list \<Rightarrow> real option" where
  "search_numbers b [] = None"
| "search_numbers b (k # ks) =
     (case number (get b k) of Some u \<Rightarrow> Some u | None \<Rightarrow> search_numbers b ks)"

definition units_of :: "pylib \<Rightarrow> pydict \<Rightarrow> real option" where
  "units_of L t =
     (case search_units L t DOSE_KEYS of
        Some u \<Rightarrow> Some u
      | None \<Rightarrow>
          (case get t ''bolus'' of
             JDict b \<Rightarrow> search_numbers b [''normal'', ''extended'', ''immediate'']
           | _ \<Rightarrow> None))"

text \<open>\<^verbatim>\<open>(NOW - ts).total_seconds() / 60.0\<close>.\<close>

definition age_minutes :: "instant \<Rightarrow> instant \<Rightarrow> real" where
  "age_minutes now ts = real_of_int (now - ts) / 1000000 / 60"

text \<open>
  The body of \<^verbatim>\<open>for t in treatments\<close> in \<^verbatim>\<open>dashboard.py\<close>, on the running total \<open>tot\<close>.
  \<open>Inl\<close> is the exception of \<^verbatim>\<open>fromtimestamp\<close>, which leaves the function.
\<close>

definition iob_step :: "pylib \<Rightarrow> instant \<Rightarrow> real \<Rightarrow> pydict \<Rightarrow> py_error + real" where
  "iob_step L now tot t =
     (case units_of L t of
        None \<Rightarrow> Inr tot
      | Some u \<Rightarrow>
          if u \<le> 0 then Inr tot
          else (case treatment_ts L t of
                  Inl err \<Rightarrow> Inl err
                | Inr None \<Rightarrow> Inr tot
                | Inr (Some ts) \<Rightarrow>
                    let age_min = age_minutes now ts
                    in if 0 \<le> age_min \<and> age_min \<le> DIA_MINUTES
                       then Inr (tot + u * (0.5 powr (age_min / T_HALF)))
                       else Inr tot))"

fun iob_loop :: "pylib \<Rightarrow> instant \<Rightarrow> real \<Rightarrow> pydict list \<Rightarrow> py_error + real" where
  "iob_loop L now tot [] = Inr tot"
| "iob_loop L now tot (t # ts) =
     (case iob_step L now tot t of Inl err \<Rightarrow> Inl err | Inr tot' \<Rightarrow> iob_loop L now tot' ts)"

definition fallback_bolus_iob :: "pylib \<Rightarrow> instant \<Rightarrow> pydict list \<Rightarrow> py_error + real" where
  "fallback_bolus_iob L NOW treatments = iob_loop L NOW 0 treatments"

text \<open>
  \<^verbatim>\<open>_fallback_bolus_iob\<close> of \<^verbatim>\<open>widget.py\<close>: its own constants, the test
  \<^verbatim>\<open>not u or u <= 0\<close>, and the clock read at the call.
\<close>

definition widget_iob_step :: "pylib \<Rightarrow> instant \<Rightarrow> real \<Rightarrow> pydict \<Rightarrow> py_error + real" where
  "widget_iob_step L now_utc tot t =
     (case units_of L t of
        None \<Rightarrow> Inr tot
      | Some u \<Rightarrow>
          if u = 0 \<or> u \<le> 0 then Inr tot
          else (case treatment_ts L t of
                  Inl err \<Rightarrow> Inl err
                | Inr None \<Rightarrow> Inr tot
                | Inr (Some ts) \<Rightarrow>
                    let age_min = age_minutes now_utc ts
                    in if 0 \<le> age_min \<and> age_min \<le> 300
                       then Inr (tot + u * (0.5 powr (age_min / 60)))
                       else Inr tot))"

fun widget_iob_loop :: "pylib \<Rightarrow> instant \<Rightarrow> real \<Rightarrow> pydict list \<Rightarrow> py_error + real" where
  "widget_iob_loop L now_utc tot [] = Inr tot"
| "widget_iob_loop L now_utc tot (t # ts) =
     (case widget_iob_step L now_utc tot t of
        Inl err \<Rightarrow> Inl err
      | Inr tot' \<Rightarrow> widget_iob_loop L now_utc tot' ts)"

definition widget_fallback_bolus_iob :: "pylib \<Rightarrow> instant \<Rightarrow> pydict list \<Rightarrow> py_error + real" where
  "widget_fallback_bolus_iob L now_utc treatments = widget_iob_loop L now_utc 0 treatments"

subsection \<open>\<^verbatim>\<open>compute_arrow_from_slope\<close>\<close>

text \<open>
  The five strings the function returns, by code point: U+2191, U+2197, U+2192, U+2198 and
  U+2193.
\<close>

datatype arrow = SingleUp | FortyFiveUp | Flat | FortyFiveDown | SingleDown

text \<open>The chain of tests on \<^verbatim>\<open>slope_15min\<close>.\<close>

definition arrow_of_slope :: "real \<Rightarrow> arrow option" where
  "arrow_of_slope slope_15min =
     (if slope_15min \<ge> 0.5 then Some SingleUp
      else if 0.2 \<le> slope_15min \<and> slope_15min < 0.5 then Some FortyFiveUp
      else if - 0.2 < slope_15min \<and> slope_15min < 0.2 then Some Flat
      else if - 0.5 < slope_15min \<and> slope_15min \<le> - 0.2 then Some FortyFiveDown
      else if slope_15min \<le> - 0.5 then Some SingleDown
      else None)"

text \<open>
  The rows that are fitted: those of the last 15 minutes, or the last five rows when
  fewer than two are that recent. A row is the index value and the \<^verbatim>\<open>mmol\<close> column.
\<close>

definition fit_rows :: "(instant \<times> real) list \<Rightarrow> (instant \<times> real) list" where
  "fit_rows entries =
     (let end_t = fst (last entries);
          start_t = end_t - 15 * MINUTE;
          df = filter (\<lambda>r. fst r \<ge> start_t) entries
      in if length df < 2 then drop (length entries - 5) entries else df)"

text \<open>
  \<open>polyfit1 x y\<close> is \<^verbatim>\<open>np.polyfit(x, y, 1)[0]\<close>, a library routine and a parameter here;
  \<open>None\<close> when it raises or returns NaN, and then every test of the chain fails. The index
  is turned into seconds, as \<^verbatim>\<open>astype(np.int64) / 1e9\<close> does.
\<close>

definition compute_arrow_from_slope ::
  "(real list \<Rightarrow> real list \<Rightarrow> real option) \<Rightarrow> (instant \<times> real) list \<Rightarrow> arrow option" where
  "compute_arrow_from_slope polyfit1 entries =
     (if entries = [] \<or> length entries < 3 then None
      else
        let df = fit_rows entries;
            x = map (\<lambda>r. real_of_int (fst r) / 1000000) df;
            y = map snd df
        in if length x < 2 then None
           else (case polyfit1 (map (\<lambda>v. v - hd x) x) y of
                   None \<Rightarrow> None
                 | Some slope_per_s \<Rightarrow> arrow_of_slope (slope_per_s * (15 * 60))))"

text \<open>
  The slope of the least-squares line through the points, in exact arithmetic: what
  \<^verbatim>\<open>np.polyfit\<close> of degree 1 approximates. \<open>None\<close> when all abscissae coincide.
\<close>

definition lsq_slope :: "real list \<Rightarrow> real list \<Rightarrow> real option" where
  "lsq_slope xs ys =
     (let n = real (length xs);
          sx = sum_list xs;
          sy = sum_list ys;
          sxx = sum_list (map (\<lambda>x. x * x) xs);
          sxy = sum_list (map (\<lambda>(x, y). x * y) (zip xs ys));
          d = n * sxx - sx * sx
      in if d = 0 then None else Some ((n * sxy - sx * sy) / d))"

section \<open>Notions used in the statements\<close>

subsection \<open>Overlays of a minute\<close>

text \<open>
  An overlay carries a rate when at least one of its two rate fields is not NaN; the rate
  it writes over a planned rate is the absolute one when there is one, the percentage of
  the plan otherwise.
\<close>

definition has_rate :: "temp_basal \<Rightarrow> bool" where
  "has_rate temp = (absolute temp \<noteq> None \<or> percent temp \<noteq> None)"

definition rate_under :: "temp_basal \<Rightarrow> real \<Rightarrow> real" where
  "rate_under temp plan_rate =
     (case absolute temp of
        Some a \<Rightarrow> a
      | None \<Rightarrow> (case percent temp of Some p \<Rightarrow> plan_rate * (p / 100) | None \<Rightarrow> plan_rate))"

text \<open>What one pass of the loop over the overlays does to one row.\<close>

definition overlay_row :: "temp_basal \<Rightarrow> basal_row \<Rightarrow> basal_row" where
  "overlay_row temp r =
     (if in_mask temp (row_time r) \<and> has_rate temp
      then r\<lparr>actual_u_per_h := rate_under temp (plan_u_per_h r)\<rparr> else r)"

text \<open>
  The overlays, in list order, that carry a rate and whose window holds the instant; and
  the rate of the last of them, the planned rate when there is none.
\<close>

definition covering :: "temp_basal list \<Rightarrow> instant \<Rightarrow> temp_basal list" where
  "covering ovs t = filter (\<lambda>temp. in_mask temp t \<and> has_rate temp) ovs"

definition actual_at :: "temp_basal list \<Rightarrow> instant \<Rightarrow> real \<Rightarrow> real" where
  "actual_at ovs t plan_rate =
     (if covering ovs t = [] then plan_rate else rate_under (last (covering ovs t)) plan_rate)"

text \<open>
  The overlay rule in the words of the specification, to compare with the code: every
  overlay whose window holds the minute overwrites the rate, with the absolute rate when it
  is present and not NaN, otherwise with plan times percent over 100. A float that may be
  NaN is a \<open>real option\<close>, and a NaN percentage gives a NaN product.
\<close>

definition spec_overlay_value :: "temp_basal \<Rightarrow> real \<Rightarrow> real option" where
  "spec_overlay_value temp plan_rate =
     (case absolute temp of
        Some a \<Rightarrow> Some a
      | None \<Rightarrow> (case percent temp of Some p \<Rightarrow> Some (plan_rate * p / 100) | None \<Rightarrow> None))"

fun spec_actual :: "real \<Rightarrow> instant \<Rightarrow> temp_basal list \<Rightarrow> real option \<Rightarrow> real option" where
  "spec_actual plan_rate t [] cur = cur"
| "spec_actual plan_rate t (temp # rest) cur =
     spec_actual plan_rate t rest
       (if in_mask temp t then spec_overlay_value temp plan_rate else cur)"

subsection \<open>A library for concrete records\<close>

text \<open>
  An instance of the library parameters for evaluating the functions on concrete records:
  the parser reads one timestamp, \<^verbatim>\<open>float\<close> one numeral, \<^verbatim>\<open>int\<close> nothing, and
  \<^verbatim>\<open>fromtimestamp\<close> accepts the seconds of the years 1 to 9999.
\<close>

definition demo_lib :: pylib where
  "demo_lib =
     \<lparr>isoparse = (\<lambda>s. if s = ''2024-01-01T00:00:00Z'' then Some 1704067200000000 else None),
      float_of_str = (\<lambda>s. if s = ''1.5'' then Some (3 / 2) else None),
      int_of_str = (\<lambda>s. None),
      str_of = (\<lambda>x. []),
      timestamp_ok = (\<lambda>x. - 62135596800 \<le> x \<and> x < 253402300800)\<rparr>"

subsection \<open>The dose of a record\<close>

text \<open>
  What one dose key gives: the number, or the float read from a string whose comma is
  taken as the decimal point. The dose that \<^verbatim>\<open>split_events\<close> finds is that of the first
  key, in priority order, that gives anything.
\<close>

definition dose_value :: "pylib \<Rightarrow> json \<Rightarrow> real option" where
  "dose_value L v =
     (case number v of
        Some u \<Rightarrow> Some u
      | None \<Rightarrow> (case v of JStr s \<Rightarrow> float_of_str L (replace_comma s) | _ \<Rightarrow> None))"

definition first_dose :: "pylib \<Rightarrow> pydict \<Rightarrow> real option" where
  "first_dose L t =
     (case List.find (\<lambda>k. dose_value L (get t k) \<noteq> None) DOSE_KEYS of
        None \<Rightarrow> None
      | Some k \<Rightarrow> dose_value L (get t k))"

text \<open>
  The search in the words of the specification, to compare with the code: the first key,
  in priority order, that holds a positive dose.
\<close>

definition spec_positive_dose :: "pylib \<Rightarrow> pydict \<Rightarrow> real option" where
  "spec_positive_dose L t =
     (case List.find (\<lambda>k. case dose_value L (get t k) of None \<Rightarrow> False | Some u \<Rightarrow> u > 0)
             DOSE_KEYS of
        None \<Rightarrow> None
      | Some k \<Rightarrow> dose_value L (get t k))"

subsection \<open>The decay sum\<close>




subsection \<open>The fitted readings\<close>

text \<open>
  The readings of the last 15 minutes, counted back from the last reading, and the
  abscissae handed to the fit: the seconds elapsed since the first fitted reading.
\<close>

definition trailing_window :: "(instant \<times> real) list \<Rightarrow> (instant \<times> real) list" where
  "trailing_window entries =
     filter (\<lambda>r. fst (last entries) - 15 * MINUTE \<le> fst r) entries"

definition row_seconds :: "instant \<times> real \<Rightarrow> real" where
  "row_seconds r = real_of_int (fst r) / 1000000"

definition seconds_since_first :: "(instant \<times> real) list \<Rightarrow> real list" where
  "seconds_since_first df = map (\<lambda>r. row_seconds r - row_seconds (hd df)) df"

section \<open>Properties of the basal reconciler\<close>

lemma scan_keys_takeWhile:
  "scan_keys plan secs ks cur =
     (case takeWhile (\<lambda>k. k \<le> secs) ks of [] \<Rightarrow> cur | x # xs \<Rightarrow> map_of plan (last (x # xs)))"
  by (induction ks arbitrary: cur) (auto split: list.splits)

lemma takeWhile_le_sorted:
  "sorted ks \<Longrightarrow> takeWhile (\<lambda>k. k \<le> (s::int)) ks = filter (\<lambda>k. k \<le> s) ks"
proof (induction ks)
  case Nil
  then show ?case by simp
next
  case (Cons k ks)
  show ?case
  proof (cases "k \<le> s")
    case True
    with Cons show ?thesis by simp
  next
    case False
    with Cons.prems have "\<forall>x \<in> set ks. \<not> x \<le> s" by auto
    then have "filter (\<lambda>k. k \<le> s) ks = []" by (simp add: filter_empty_conv)
    with False show ?thesis by simp
  qed
qed

lemma sorted_le_last:
  "sorted (xs::int list) \<Longrightarrow> y \<in> set xs \<Longrightarrow> y \<le> last xs"
  by (induction xs) auto

lemma last_sorted_Max:
  "sorted (xs::int list) \<Longrightarrow> xs \<noteq> [] \<Longrightarrow> last xs = Max (set xs)"
proof -
  assume s: "sorted xs" and ne: "xs \<noteq> []"
  have "Max (set xs) = last xs"
  proof (rule Max_eqI)
    show "finite (set xs)" by simp
    show "\<And>y. y \<in> set xs \<Longrightarrow> y \<le> last xs" using s by (rule sorted_le_last)
    show "last xs \<in> set xs" using ne by simp
  qed
  then show ?thesis by simp
qed

lemma scan_keys_sorted:
  assumes "sorted ks"
  shows "scan_keys plan secs ks None =
     (if \<exists>k \<in> set ks. k \<le> secs then map_of plan (Max {k \<in> set ks. k \<le> secs}) else None)"
proof -
  let ?f = "filter (\<lambda>k. k \<le> secs) ks"
  have tw: "takeWhile (\<lambda>k. k \<le> secs) ks = ?f" using assms by (rule takeWhile_le_sorted)
  have sf: "sorted ?f" using assms by (rule sorted_wrt_filter)
  have setf: "set ?f = {k \<in> set ks. k \<le> secs}" by auto
  show ?thesis
  proof (cases "?f = []")
    case True
    then have "\<not> (\<exists>k \<in> set ks. k \<le> secs)" by (simp add: filter_empty_conv)
    with True tw show ?thesis by (simp add: scan_keys_takeWhile)
  next
    case False
    then have ex: "\<exists>k \<in> set ks. k \<le> secs" by (simp add: filter_empty_conv)
    have "last ?f = Max (set ?f)" using sf False by (rule last_sorted_Max)
    then have "last ?f = Max {k \<in> set ks. k \<le> secs}" by (simp only: setf)
    moreover have "scan_keys plan secs ks None = map_of plan (last ?f)"
      using False tw by (simp add: scan_keys_takeWhile split: list.splits)
    ultimately show ?thesis using ex by simp
  qed
qed

lemma current_plan_basal_Max:
  assumes "plan \<noteq> []"
  shows "current_plan_basal utcoffset plan t =
     (if \<exists>k \<in> fst ` set plan. k \<le> local_secs utcoffset t
      then map_of plan (Max {k \<in> fst ` set plan. k \<le> local_secs utcoffset t})
      else map_of plan (Max (fst ` set plan)))"
proof -
  let ?keys = "sort (remdups (map fst plan))"
  let ?secs = "local_secs utcoffset t"
  have sk: "sorted ?keys" by simp
  have setk: "set ?keys = fst ` set plan" by simp
  have ne: "?keys \<noteq> []" using assms by (metis setk set_empty image_is_empty)
  have lastk: "last ?keys = Max (fst ` set plan)"
    using last_sorted_Max[OF sk ne] by (simp only: setk)
  have scan: "scan_keys plan ?secs ?keys None =
     (if \<exists>k \<in> fst ` set plan. k \<le> ?secs
      then map_of plan (Max {k \<in> fst ` set plan. k \<le> ?secs}) else None)"
    using scan_keys_sorted[OF sk, of plan ?secs] by (simp only: setk)
  show ?thesis
  proof (cases "\<exists>k \<in> fst ` set plan. k \<le> ?secs")
    case True
    let ?m = "Max {k \<in> fst ` set plan. k \<le> ?secs}"
    have "?m \<in> {k \<in> fst ` set plan. k \<le> ?secs}"
      using True by (intro Max_in) auto
    then have "?m \<in> fst ` set plan" by simp
    then obtain r where "map_of plan ?m = Some r"
      by (metis domD dom_map_of_conv_image_fst)
    with True scan assms lastk show ?thesis
      unfolding current_plan_basal_def Let_def by simp
  next
    case False
    with scan assms lastk show ?thesis
      unfolding current_plan_basal_def Let_def by simp
  qed
qed

lemma apply_temp_map: "apply_temp rows temp = map (overlay_row temp) rows"
proof (cases "\<exists>r \<in> set rows. in_mask temp (row_time r)")
  case False
  then have "map (overlay_row temp) rows = rows"
    by (intro map_idI) (simp add: overlay_row_def)
  with False show ?thesis by (simp add: apply_temp_def)
next
  case True
  show ?thesis
  proof (cases "absolute temp")
    case (Some a)
    with True show ?thesis
      by (simp add: apply_temp_def overlay_row_def has_rate_def rate_under_def)
  next
    case None
    note ab = None
    show ?thesis
    proof (cases "percent temp")
      case None
      then have "map (overlay_row temp) rows = rows"
        using ab by (intro map_idI) (simp add: overlay_row_def has_rate_def)
      with True ab None show ?thesis by (simp add: apply_temp_def)
    next
      case (Some p)
      with True ab show ?thesis
        by (simp add: apply_temp_def overlay_row_def has_rate_def rate_under_def)
    qed
  qed
qed

lemma foldl_apply_temp:
  "foldl apply_temp rows ovs = map (\<lambda>r. foldl (\<lambda>r temp. overlay_row temp r) r ovs) rows"
  by (induction ovs arbitrary: rows) (simp_all add: apply_temp_map o_def)

lemma foldl_overlay_row:
  "foldl (\<lambda>r temp. overlay_row temp r) r ovs =
     r\<lparr>actual_u_per_h :=
         (if covering ovs (row_time r) = [] then actual_u_per_h r
          else rate_under (last (covering ovs (row_time r))) (plan_u_per_h r))\<rparr>"
proof (induction ovs rule: rev_induct)
  case Nil
  show ?case by (simp add: covering_def)
next
  case (snoc temp ovs)
  let ?f = "\<lambda>r temp. overlay_row temp r"
  have "foldl ?f r (ovs @ [temp]) = overlay_row temp (foldl ?f r ovs)" by simp
  also have "\<dots> = overlay_row temp
       (r\<lparr>actual_u_per_h :=
           (if covering ovs (row_time r) = [] then actual_u_per_h r
            else rate_under (last (covering ovs (row_time r))) (plan_u_per_h r))\<rparr>)"
    by (simp only: snoc)
  also have "\<dots> = r\<lparr>actual_u_per_h :=
         (if covering (ovs @ [temp]) (row_time r) = [] then actual_u_per_h r
          else rate_under (last (covering (ovs @ [temp]) (row_time r))) (plan_u_per_h r))\<rparr>"
    by (simp add: overlay_row_def covering_def)
  finally show ?case .
qed

lemma date_range_set:
  "set (date_range s e) = {t. s \<le> t \<and> t \<le> e \<and> (t - s) mod MINUTE = 0}"
proof (intro set_eqI iffI)
  fix t assume "t \<in> set (date_range s e)"
  then obtain k where k: "k < nat ((e - s) div MINUTE + 1)" and t: "t = s + MINUTE * int k"
    by (auto simp: date_range_def)
  from k have "int k \<le> (e - s) div MINUTE" by linarith
  then have "MINUTE * int k \<le> MINUTE * ((e - s) div MINUTE)"
    by (simp add: MINUTE_def)
  also have "\<dots> \<le> e - s"
    by (simp add: MINUTE_def)
  finally have "t \<le> e" using t by simp
  moreover have "s \<le> t" using t by (simp add: MINUTE_def)
  moreover have "(t - s) mod MINUTE = 0" using t by simp
  ultimately show "t \<in> {t. s \<le> t \<and> t \<le> e \<and> (t - s) mod MINUTE = 0}" by simp
next
  fix t assume "t \<in> {t. s \<le> t \<and> t \<le> e \<and> (t - s) mod MINUTE = 0}"
  then have st: "s \<le> t" and te: "t \<le> e" and m: "(t - s) mod MINUTE = 0" by auto
  define k where "k = nat ((t - s) div MINUTE)"
  have nonneg: "0 \<le> (t - s) div MINUTE" using st by (simp add: MINUTE_def pos_imp_zdiv_nonneg_iff)
  have "MINUTE * ((t - s) div MINUTE) = t - s" using m by (simp add: mod_eq_0_iff_dvd)
  then have t: "t = s + MINUTE * int k" using nonneg by (simp add: k_def)
  have "(t - s) div MINUTE \<le> (e - s) div MINUTE"
    using te by (intro zdiv_mono1) (simp_all add: MINUTE_def)
  then have "k < nat ((e - s) div MINUTE + 1)" using nonneg by (simp add: k_def)
  then show "t \<in> set (date_range s e)" using t by (auto simp: date_range_def)
qed

lemma build_basal_series_rows:
  "build_basal_series utcoffset plan ovs s e =
     map (\<lambda>t. \<lparr>row_time = t,
               plan_u_per_h = plan_at utcoffset plan t,
               actual_u_per_h = actual_at ovs t (plan_at utcoffset plan t),
               is_temp = (if actual_at ovs t (plan_at utcoffset plan t) \<noteq> plan_at utcoffset plan t
                          then 1 else 0)\<rparr>) (date_range s e)"
  by (simp add: build_basal_series_def Let_def foldl_apply_temp foldl_overlay_row actual_at_def o_def)

lemma plan_at_single: "plan_at utcoffset [(k, r)] t = r"
  by (simp add: plan_at_def current_plan_basal_def Let_def)

lemma date_range_single: "date_range s s = [s]"
  by (simp add: date_range_def MINUTE_def)

text \<open>
  Claim C8. For a profile that is not empty, \<^verbatim>\<open>current_plan_basal\<close> returns a rate: that
  of the segment with the greatest time of day not after the second of the local day of the
  query, and that of the last segment (the greatest time of day of all) when the query is
  before every segment. A profile of the single segment of 1.0 U/h at 0 s, without
  overlays, gives a series whose planned and actual rates are 1.0 in every row and whose
  \<^verbatim>\<open>is_temp\<close> is 0 in every row.
\<close>

theorem current_plan_basal_lookup:
  "(plan \<noteq> [] \<longrightarrow>
      (\<exists>rate. current_plan_basal utcoffset plan t = Some rate) \<and>
      current_plan_basal utcoffset plan t =
        (if \<exists>k \<in> fst ` set plan. k \<le> local_secs utcoffset t
         then map_of plan (Max {k \<in> fst ` set plan. k \<le> local_secs utcoffset t})
         else map_of plan (Max (fst ` set plan))))
   \<and> build_basal_series utcoffset [(0, 1)] [] s e =
       map (\<lambda>t. \<lparr>row_time = t, plan_u_per_h = 1, actual_u_per_h = 1, is_temp = 0\<rparr>)
         (date_range s e)"
proof (intro conjI impI)
  assume ne: "plan \<noteq> []"
  show eq: "current_plan_basal utcoffset plan t =
        (if \<exists>k \<in> fst ` set plan. k \<le> local_secs utcoffset t
         then map_of plan (Max {k \<in> fst ` set plan. k \<le> local_secs utcoffset t})
         else map_of plan (Max (fst ` set plan)))"
    using ne by (rule current_plan_basal_Max)
  let ?K = "fst ` set plan"
  let ?S = "{k \<in> ?K. k \<le> local_secs utcoffset t}"
  have fin: "finite ?K" by simp
  have Kne: "?K \<noteq> {}" using ne by simp
  show "\<exists>rate. current_plan_basal utcoffset plan t = Some rate"
  proof (cases "\<exists>k \<in> ?K. k \<le> local_secs utcoffset t")
    case True
    then have "Max ?S \<in> ?S" by (intro Max_in) auto
    then have "Max ?S \<in> ?K" by simp
    then obtain r where "map_of plan (Max ?S) = Some r"
      by (metis domD dom_map_of_conv_image_fst)
    with True eq show ?thesis by simp
  next
    case False
    have "Max ?K \<in> ?K" using fin Kne by (rule Max_in)
    then obtain r where "map_of plan (Max ?K) = Some r"
      by (metis domD dom_map_of_conv_image_fst)
    with False eq show ?thesis by simp
  qed
next
  show "build_basal_series utcoffset [(0, 1)] [] s e =
       map (\<lambda>t. \<lparr>row_time = t, plan_u_per_h = 1, actual_u_per_h = 1, is_temp = 0\<rparr>)
         (date_range s e)"
    by (simp add: build_basal_series_rows plan_at_single actual_at_def covering_def)
qed

theorem current_plan_basal_lookup_witness:
  "current_plan_basal (\<lambda>_. 0) [(3600, 1), (7200, 2)] 4000000000 = Some 1
   \<and> current_plan_basal (\<lambda>_. 0) [(3600, 1), (7200, 2)] 0 = Some 2
   \<and> build_basal_series (\<lambda>_. 0) [(0, 1)] [] 0 0 =
       [\<lparr>row_time = 0, plan_u_per_h = 1, actual_u_per_h = 1, is_temp = 0\<rparr>]"
proof -
  have sel: "{k. (k = 3600 \<or> k = 7200) \<and> k \<le> 4000} = {3600::int}" by auto
  show ?thesis
    using current_plan_basal_lookup [of "[(3600, 1), (7200, 2)]" "\<lambda>_. 0" 4000000000 0 0]
      current_plan_basal_lookup [of "[(3600, 1), (7200, 2)]" "\<lambda>_. 0" 0 0 0]
    by (simp add: local_secs_def date_range_single sel)
qed

lemma spec_actual_has_rate:
  "\<forall>temp \<in> set ovs. has_rate temp \<Longrightarrow>
   spec_actual p t ovs (Some a) =
     Some (if covering ovs t = [] then a else rate_under (last (covering ovs t)) p)"
proof (induction ovs arbitrary: a)
  case Nil
  show ?case by (simp add: covering_def)
next
  case (Cons temp ovs)
  then have hr: "has_rate temp" and rest: "\<forall>x \<in> set ovs. has_rate x" by simp_all
  have val: "spec_overlay_value temp p = Some (rate_under temp p)"
    using hr by (auto simp: spec_overlay_value_def rate_under_def has_rate_def split: option.splits)
  show ?case
  proof (cases "in_mask temp t")
    case True
    then show ?thesis
      using Cons.IH [OF rest, of "rate_under temp p"] hr by (simp add: val covering_def)
  next
    case False
    then show ?thesis
      using Cons.IH [OF rest, of a] by (simp add: covering_def)
  qed
qed

text \<open>
  Claim C1, as amended. The series has one row per minute from \<open>start\<close> on, up to and
  including \<open>end\<close> when \<open>end\<close> is a whole number of minutes after \<open>start\<close>. The planned
  rate of a row is the profile's rate at its instant. The actual rate is the planned rate
  unless an overlay that carries a rate has the instant in its window \<open>[start, start +
  duration)\<close>; then it is the rate of the last such overlay of the list, its absolute rate
  when it has one, plan times percent over 100 otherwise. An overlay with neither rate
  leaves the row as it was. When every overlay carries a rate, this is the rule of the
  specification.
\<close>

theorem build_basal_series_overlays:
  "map row_time (build_basal_series utcoffset plan ovs s e) = date_range s e
   \<and> set (date_range s e) = {t. s \<le> t \<and> t \<le> e \<and> (t - s) mod MINUTE = 0}
   \<and> map plan_u_per_h (build_basal_series utcoffset plan ovs s e) =
       map (plan_at utcoffset plan) (date_range s e)
   \<and> map actual_u_per_h (build_basal_series utcoffset plan ovs s e) =
       map (\<lambda>t. actual_at ovs t (plan_at utcoffset plan t)) (date_range s e)
   \<and> ((\<forall>temp \<in> set ovs. has_rate temp) \<longrightarrow>
        map (\<lambda>r. Some (actual_u_per_h r)) (build_basal_series utcoffset plan ovs s e) =
        map (\<lambda>t. spec_actual (plan_at utcoffset plan t) t ovs (Some (plan_at utcoffset plan t)))
          (date_range s e))"
  by (simp add: build_basal_series_rows date_range_set o_def spec_actual_has_rate actual_at_def)

theorem build_basal_series_overlays_witness:
  "map actual_u_per_h (build_basal_series (\<lambda>_. 0) [(0, 1)]
      [\<lparr>start = 0, duration = 30, percent = Some 50, absolute = None\<rparr>,
       \<lparr>start = 0, duration = 0, percent = None, absolute = Some 3\<rparr>,
       \<lparr>start = 0, duration = 30, percent = None, absolute = None\<rparr>] 0 0) = [1 / 2]"
  using build_basal_series_overlays [of "\<lambda>_. 0" "[(0, 1)]"
      "[\<lparr>start = 0, duration = 30, percent = Some 50, absolute = None\<rparr>,
       \<lparr>start = 0, duration = 0, percent = None, absolute = Some 3\<rparr>,
       \<lparr>start = 0, duration = 30, percent = None, absolute = None\<rparr>]" 0 0]
  by (simp add: date_range_single plan_at_single actual_at_def covering_def in_mask_def
      has_rate_def rate_under_def MINUTE_def)

text \<open>
  Claim C1 as stated fails on an overlay that has neither rate: the code leaves the row at
  the planned rate 1, the rule of the claim writes plan times NaN over 100.
\<close>

theorem build_basal_series_overlays_counterexample:
  "map (\<lambda>r. Some (actual_u_per_h r))
     (build_basal_series (\<lambda>_. 0) [(0, 1)]
        [\<lparr>start = 0, duration = 30, percent = None, absolute = None\<rparr>] 0 0)
   \<noteq> map (\<lambda>t. spec_actual (plan_at (\<lambda>_. 0) [(0, 1)] t) t
               [\<lparr>start = 0, duration = 30, percent = None, absolute = None\<rparr>]
               (Some (plan_at (\<lambda>_. 0) [(0, 1)] t)))
       (date_range 0 0)"
  by (simp add: build_basal_series_def date_range_single plan_at_single apply_temp_def
      in_mask_def MINUTE_def spec_overlay_value_def)

text \<open>
  Claim C2, as amended. In every row of a series built by \<^verbatim>\<open>build_basal_series\<close> the
  flag \<^verbatim>\<open>is_temp\<close> is 1 exactly when the actual rate differs from the planned rate, by
  whatever amount, and 0 exactly when the two are equal.
\<close>

theorem is_temp_exact:
  "\<forall>r \<in> set (build_basal_series utcoffset plan ovs s e).
     (is_temp r = 1 \<longleftrightarrow> actual_u_per_h r \<noteq> plan_u_per_h r) \<and>
     (is_temp r = 0 \<longleftrightarrow> actual_u_per_h r = plan_u_per_h r)"
  by (auto simp: build_basal_series_def Let_def)

theorem is_temp_exact_witness:
  "\<exists>r \<in> set (build_basal_series (\<lambda>_. 0) [(0, 1)]
          [\<lparr>start = 0, duration = 30, percent = None, absolute = Some 2\<rparr>] 0 0).
     actual_u_per_h r = 2 \<and> plan_u_per_h r = 1 \<and> is_temp r = 1"
proof -
  have series: "build_basal_series (\<lambda>_. 0) [(0, 1)]
      [\<lparr>start = 0, duration = 30, percent = None, absolute = Some 2\<rparr>] 0 0 =
      [\<lparr>row_time = 0, plan_u_per_h = 1, actual_u_per_h = 2, is_temp = 1\<rparr>]"
    by (simp add: build_basal_series_def date_range_single plan_at_single apply_temp_def
        in_mask_def MINUTE_def)
  show ?thesis
    using is_temp_exact [of "\<lambda>_. 0" "[(0, 1)]"
        "[\<lparr>start = 0, duration = 30, percent = None, absolute = Some 2\<rparr>]" 0 0]
    by (simp add: series)
qed

text \<open>
  Claim C2 as stated fails on an absolute rate of 1.0000005 over a plan of 1.0: the rates
  differ by less than 1e-6 and the row is flagged all the same.
\<close>

theorem is_temp_tolerance_counterexample:
  "\<not> (\<forall>r \<in> set (build_basal_series (\<lambda>_. 0) [(0, 1)]
          [\<lparr>start = 0, duration = 30, percent = None, absolute = Some (1 + 1 / 2000000)\<rparr>] 0 0).
        is_temp r = 1 \<longleftrightarrow> \<bar>actual_u_per_h r - plan_u_per_h r\<bar> > 1 / 1000000)"
  by (simp add: build_basal_series_def date_range_single plan_at_single apply_temp_def
      in_mask_def MINUTE_def)

section \<open>Properties of the record classifier\<close>

lemma search_units_Cons:
  "search_units L t (k # ks) =
     (case dose_value L (get t k) of Some u \<Rightarrow> Some u | None \<Rightarrow> search_units L t ks)"
  by (cases "get t k") (simp_all add: dose_value_def split: option.splits)

lemma search_units_find:
  "search_units L t ks =
     (case List.find (\<lambda>k. dose_value L (get t k) \<noteq> None) ks of
        None \<Rightarrow> None
      | Some k \<Rightarrow> dose_value L (get t k))"
proof (induction ks)
  case Nil
  show ?case by simp
next
  case (Cons k ks)
  show ?case
  proof (cases "dose_value L (get t k)")
    case None
    then show ?thesis using Cons by (simp only: search_units_Cons) simp
  next
    case (Some u)
    then show ?thesis by (simp only: search_units_Cons) simp
  qed
qed

lemma search_units_first_dose: "search_units L t DOSE_KEYS = first_dose L t"
  by (simp add: first_dose_def search_units_find)

lemma contains_iff: "contains sub s \<longleftrightarrow> (\<exists>p q. s = p @ sub @ q)"
proof (induction s)
  case Nil
  show ?case by auto
next
  case (Cons c cs)
  have pre: "take (length sub) (c # cs) = sub \<longleftrightarrow> (\<exists>q. c # cs = sub @ q)"
    by (metis append_eq_conv_conj append_take_drop_id)
  have "(\<exists>p q. c # cs = p @ sub @ q) \<longleftrightarrow> (\<exists>q. c # cs = sub @ q) \<or> (\<exists>p q. cs = p @ sub @ q)"
  proof
    assume "\<exists>p q. c # cs = p @ sub @ q"
    then obtain p q where pq: "c # cs = p @ sub @ q" by blast
    show "(\<exists>q. c # cs = sub @ q) \<or> (\<exists>p q. cs = p @ sub @ q)"
    proof (cases p)
      case Nil
      with pq show ?thesis by auto
    next
      case (Cons a p')
      with pq have "cs = p' @ sub @ q" by simp
      then show ?thesis by blast
    qed
  next
    assume "(\<exists>q. c # cs = sub @ q) \<or> (\<exists>p q. cs = p @ sub @ q)"
    then show "\<exists>p q. c # cs = p @ sub @ q"
    proof
      assume "\<exists>q. c # cs = sub @ q"
      then obtain q where "c # cs = [] @ sub @ q" by auto
      then show ?thesis by blast
    next
      assume "\<exists>p q. cs = p @ sub @ q"
      then obtain p q where "cs = p @ sub @ q" by blast
      then have "c # cs = (c # p) @ sub @ q" by simp
      then show ?thesis by blast
    qed
  qed
  with Cons pre show ?case by simp
qed

lemma smb_marked_iff:
  "smb_marked et t_type tags \<longleftrightarrow>
     contains ''smb'' et \<or> contains ''smb'' t_type \<or> (\<exists>tg \<in> set tags. contains ''smb'' tg)"
  by (auto simp: smb_marked_def)

lemma split_step_other:
  assumes "lower_or_empty (get t ''eventType'') = Inr et" and "et \<noteq> ''temp basal''"
    and "lower_or_empty (get t ''type'') = Inr t_type"
    and "tags_lower L (get t ''tags'') = Inr tags"
    and "treatment_ts L t = Inr (Some ts)"
  shows "split_step L ev t = Inr (carbs_and_bolus L ev t et t_type tags ts)"
  using assms by (simp add: split_step_def)

lemma split_step_temp:
  assumes "get t ''eventType'' = JStr s" and "lower s = ''temp basal''"
    and "split_step L ev t = Inr ev'"
  shows "bolus_big ev' = bolus_big ev \<and> bolus_mini ev' = bolus_mini ev \<and> carbs ev' = carbs ev
     \<and> (case treatment_ts L t of
           Inl err \<Rightarrow> False
         | Inr None \<Rightarrow> temps ev' = temps ev
         | Inr (Some ts) \<Rightarrow> \<exists>tb. temp_of L t ts = Inr tb \<and> temps ev' = temps ev @ [tb])"
proof -
  have s_ne: "s \<noteq> []" using assms(2) by (auto simp: lower_def)
  have et: "lower_or_empty (get t ''eventType'') = Inr ''temp basal''"
    using assms(1,2) s_ne by (simp add: lower_or_empty_def)
  show ?thesis
    using assms(3) et
    by (auto simp: split_step_def split: sum.splits option.splits)
qed

lemma first_dose_zero_or_missing:
  assumes "\<forall>k \<in> set DOSE_KEYS. dose_value L (get t k) = None \<or> dose_value L (get t k) = Some 0"
  shows "first_dose L t = None \<or> first_dose L t = Some 0"
proof (cases "List.find (\<lambda>k. dose_value L (get t k) \<noteq> None) DOSE_KEYS")
  case None
  then show ?thesis by (simp add: first_dose_def)
next
  case (Some k)
  then have "k \<in> set DOSE_KEYS" by (auto simp: find_Some_iff)
  with assms have "dose_value L (get t k) = None \<or> dose_value L (get t k) = Some 0" by blast
  moreover have "dose_value L (get t k) \<noteq> None" using Some by (auto simp: find_Some_iff)
  ultimately show ?thesis using Some by (simp add: first_dose_def)
qed

lemma carbs_and_bolus_boluses:
  "bolus_big (carbs_and_bolus L ev t et t_type tags ts) =
     (case first_dose L t of
        None \<Rightarrow> bolus_big ev
      | Some u \<Rightarrow> if u > 0 \<and> \<not> smb_marked et t_type tags
                  then bolus_big ev @ [\<lparr>bolus_time = ts, units = u, is_smb = False\<rparr>]
                  else bolus_big ev)"
  "bolus_mini (carbs_and_bolus L ev t et t_type tags ts) =
     (case first_dose L t of
        None \<Rightarrow> bolus_mini ev
      | Some u \<Rightarrow> if u > 0 \<and> smb_marked et t_type tags
                  then bolus_mini ev @ [\<lparr>bolus_time = ts, units = u, is_smb = True\<rparr>]
                  else bolus_mini ev)"
  "temps (carbs_and_bolus L ev t et t_type tags ts) = temps ev"
  by (simp_all add: carbs_and_bolus_def Let_def search_units_first_dose split: option.splits)

text \<open>
  Claim C4, as amended. Take a treatment record that \<^verbatim>\<open>split_events\<close> reads without raising
  up to its classification: its \<^verbatim>\<open>eventType\<close> and its \<^verbatim>\<open>type\<close> are each absent, false or a
  string (so that \<^verbatim>\<open>.lower()\<close> exists), its \<^verbatim>\<open>tags\<close> are absent, false, a list, a string or
  a dict (so that they can be iterated), and its timestamp is usable (the time normalizer
  returns an instant and does not raise); and whose lowercased event type is not
  "temp basal". Then the dose is the value of the first key among insulin, insulinInUnits,
  amount, units, value, in that order, that holds a number or a string that reads as a
  float once its comma is a decimal point. The record yields one bolus event with that dose
  when the dose is positive, a micro bolus when it is marked SMB and a manual bolus
  otherwise; it yields no bolus event when no key holds such a value or when the first such
  value is not positive, in particular when every key is missing or zero.
\<close>

theorem bolus_dose_search:
  assumes "lower_or_empty (get t ''eventType'') = Inr et" and "et \<noteq> ''temp basal''"
    and "lower_or_empty (get t ''type'') = Inr t_type"
    and "tags_lower L (get t ''tags'') = Inr tags"
    and "treatment_ts L t = Inr (Some ts)"
  shows "search_units L t DOSE_KEYS = first_dose L t \<and>
    (\<exists>ev'. split_step L ev t = Inr ev' \<and> temps ev' = temps ev \<and>
       bolus_big ev' =
         (case first_dose L t of
            None \<Rightarrow> bolus_big ev
          | Some u \<Rightarrow> if u > 0 \<and> \<not> smb_marked et t_type tags
                      then bolus_big ev @ [\<lparr>bolus_time = ts, units = u, is_smb = False\<rparr>]
                      else bolus_big ev) \<and>
       bolus_mini ev' =
         (case first_dose L t of
            None \<Rightarrow> bolus_mini ev
          | Some u \<Rightarrow> if u > 0 \<and> smb_marked et t_type tags
                      then bolus_mini ev @ [\<lparr>bolus_time = ts, units = u, is_smb = True\<rparr>]
                      else bolus_mini ev) \<and>
       ((\<forall>k \<in> set DOSE_KEYS. dose_value L (get t k) = None \<or> dose_value L (get t k) = Some 0)
          \<longrightarrow> bolus_big ev' = bolus_big ev \<and> bolus_mini ev' = bolus_mini ev))"
proof (intro conjI)
  show "search_units L t DOSE_KEYS = first_dose L t" by (rule search_units_first_dose)
next
  let ?ev' = "carbs_and_bolus L ev t et t_type tags ts"
  have step: "split_step L ev t = Inr ?ev'" using assms by (rule split_step_other)
  have zero: "(\<forall>k \<in> set DOSE_KEYS. dose_value L (get t k) = None \<or> dose_value L (get t k) = Some 0)
          \<longrightarrow> bolus_big ?ev' = bolus_big ev \<and> bolus_mini ?ev' = bolus_mini ev"
  proof
    assume "\<forall>k \<in> set DOSE_KEYS. dose_value L (get t k) = None \<or> dose_value L (get t k) = Some 0"
    then have "first_dose L t = None \<or> first_dose L t = Some 0"
      by (rule first_dose_zero_or_missing)
    then show "bolus_big ?ev' = bolus_big ev \<and> bolus_mini ?ev' = bolus_mini ev"
      by (auto simp: carbs_and_bolus_boluses)
  qed
  show "\<exists>ev'. split_step L ev t = Inr ev' \<and> temps ev' = temps ev \<and>
       bolus_big ev' =
         (case first_dose L t of
            None \<Rightarrow> bolus_big ev
          | Some u \<Rightarrow> if u > 0 \<and> \<not> smb_marked et t_type tags
                      then bolus_big ev @ [\<lparr>bolus_time = ts, units = u, is_smb = False\<rparr>]
                      else bolus_big ev) \<and>
       bolus_mini ev' =
         (case first_dose L t of
            None \<Rightarrow> bolus_mini ev
          | Some u \<Rightarrow> if u > 0 \<and> smb_marked et t_type tags
                      then bolus_mini ev @ [\<lparr>bolus_time = ts, units = u, is_smb = True\<rparr>]
                      else bolus_mini ev) \<and>
       ((\<forall>k \<in> set DOSE_KEYS. dose_value L (get t k) = None \<or> dose_value L (get t k) = Some 0)
          \<longrightarrow> bolus_big ev' = bolus_big ev \<and> bolus_mini ev' = bolus_mini ev)"
    using step zero by (intro exI [of _ ?ev']) (simp add: carbs_and_bolus_boluses)
qed

theorem bolus_dose_search_witness:
  "\<exists>ev'. split_step demo_lib no_events
     [(''insulin'', JStr ''1,5''), (''amount'', JInt 7),
      (''created_at'', JStr ''2024-01-01T00:00:00Z'')] = Inr ev'
    \<and> bolus_big ev' = [\<lparr>bolus_time = 1704067200000000, units = 3 / 2, is_smb = False\<rparr>]
    \<and> bolus_mini ev' = []"
proof -
  let ?t = "[(''insulin'', JStr ''1,5''), (''amount'', JInt 7),
      (''created_at'', JStr ''2024-01-01T00:00:00Z'')]"
  have ex: "\<exists>y::real. y * 2 = 3" by (rule exI [of _ "3 / 2"]) simp
  have fd: "first_dose demo_lib ?t = Some (3 / 2)"
    by (simp add: first_dose_def dose_value_def DOSE_KEYS_def get_def replace_comma_def
        demo_lib_def ex)
  have h1: "lower_or_empty (get ?t ''eventType'') = Inr []" by (simp add: get_def lower_or_empty_def)
  have h2: "[] \<noteq> ''temp basal''" by simp
  have h3: "lower_or_empty (get ?t ''type'') = Inr []" by (simp add: get_def lower_or_empty_def)
  have h4: "tags_lower demo_lib (get ?t ''tags'') = Inr []" by (simp add: get_def tags_lower_def)
  have h5: "treatment_ts demo_lib ?t = Inr (Some 1704067200000000)"
    by (simp add: treatment_ts_def get_def por_def parse_iso_def demo_lib_def)
  have sm: "\<not> smb_marked [] [] []" by (simp add: smb_marked_def)
  show ?thesis
    using bolus_dose_search [OF h1 h2 h3 h4 h5, of no_events] fd sm
    by (auto simp: no_events_def)
qed

text \<open>
  Claim C4 as stated fails on a record whose \<^verbatim>\<open>insulin\<close> is 0 and whose \<^verbatim>\<open>amount\<close>
  is 2.0: a key holds a positive dose, and the record yields no bolus event.
\<close>

theorem bolus_dose_search_counterexample:
  "spec_positive_dose demo_lib
     [(''insulin'', JInt 0), (''amount'', JFloat 2),
      (''created_at'', JStr ''2024-01-01T00:00:00Z'')] = Some 2
   \<and> split_events demo_lib
     [[(''insulin'', JInt 0), (''amount'', JFloat 2),
       (''created_at'', JStr ''2024-01-01T00:00:00Z'')]] = Inr no_events"
proof -
  let ?t = "[(''insulin'', JInt 0), (''amount'', JFloat 2),
      (''created_at'', JStr ''2024-01-01T00:00:00Z'')]"
  have sp: "spec_positive_dose demo_lib ?t = Some 2"
    by (simp add: spec_positive_dose_def dose_value_def DOSE_KEYS_def get_def)
  have h1: "lower_or_empty (get ?t ''eventType'') = Inr []" by (simp add: get_def lower_or_empty_def)
  have h2: "[] \<noteq> ''temp basal''" by simp
  have h3: "lower_or_empty (get ?t ''type'') = Inr []" by (simp add: get_def lower_or_empty_def)
  have h4: "tags_lower demo_lib (get ?t ''tags'') = Inr []" by (simp add: get_def tags_lower_def)
  have h5: "treatment_ts demo_lib ?t = Inr (Some 1704067200000000)"
    by (simp add: treatment_ts_def get_def por_def parse_iso_def demo_lib_def)
  have cb: "carbs_and_bolus demo_lib no_events ?t [] [] [] 1704067200000000 = no_events"
    by (simp add: carbs_and_bolus_def get_def por_def DOSE_KEYS_def)
  have "split_step demo_lib no_events ?t = Inr no_events"
    using split_step_other [OF h1 h2 h3 h4 h5, of no_events] by (simp only: cb)
  then have "split_events demo_lib [?t] = Inr no_events"
    by (simp add: split_events_def)
  with sp show ?thesis by simp
qed

text \<open>
  Claim C9. A record whose event type is "temp basal", whatever the case of its letters,
  either makes \<^verbatim>\<open>split_events\<close> raise, or leaves the two bolus lists and the carbs list
  as they were; it is then skipped when it has no usable timestamp and appends exactly one
  temp basal, starting at its timestamp, otherwise. Its carbs and dose fields are never
  read.
\<close>

theorem temp_basal_only:
  assumes "get t ''eventType'' = JStr s" and "lower s = ''temp basal''"
  shows "(\<exists>err. split_step L ev t = Inl err) \<or>
         (\<exists>ev'. split_step L ev t = Inr ev' \<and>
            bolus_big ev' = bolus_big ev \<and> bolus_mini ev' = bolus_mini ev \<and>
            carbs ev' = carbs ev \<and>
            (case treatment_ts L t of
               Inl err \<Rightarrow> False
             | Inr None \<Rightarrow> temps ev' = temps ev
             | Inr (Some ts) \<Rightarrow> \<exists>tb. temp_of L t ts = Inr tb \<and> start tb = ts \<and>
                                      temps ev' = temps ev @ [tb]))"
proof (cases "split_step L ev t")
  case (Inl err)
  then show ?thesis by simp
next
  case (Inr ev')
  have st: "\<And>ts tb. temp_of L t ts = Inr tb \<Longrightarrow> start tb = ts"
    by (auto simp: temp_of_def split: sum.splits option.splits)
  from split_step_temp [OF assms Inr] Inr st show ?thesis
    by (auto split: sum.splits option.splits)
qed

theorem temp_basal_only_witness:
  "split_step demo_lib no_events
     [(''eventType'', JStr ''Temp Basal''), (''carbs'', JInt 20), (''insulin'', JFloat (3 / 2)),
      (''percent'', JInt 50), (''created_at'', JStr ''2024-01-01T00:00:00Z'')] =
   Inr \<lparr>bolus_big = [], bolus_mini = [], carbs = [],
        temps = [\<lparr>start = 1704067200000000, duration = 0, percent = Some 50, absolute = None\<rparr>]\<rparr>"
proof -
  let ?t = "[(''eventType'', JStr ''Temp Basal''), (''carbs'', JInt 20),
      (''insulin'', JFloat (3 / 2)), (''percent'', JInt 50),
      (''created_at'', JStr ''2024-01-01T00:00:00Z'')]"
  have g: "get ?t ''eventType'' = JStr ''Temp Basal''" by (simp add: get_def)
  have l: "lower ''Temp Basal'' = ''temp basal''" by (simp add: lower_def lower_char_def)
  have h5: "treatment_ts demo_lib ?t = Inr (Some 1704067200000000)"
    by (simp add: treatment_ts_def get_def por_def parse_iso_def demo_lib_def)
  have tb: "temp_of demo_lib ?t 1704067200000000 =
      Inr \<lparr>start = 1704067200000000, duration = 0, percent = Some 50, absolute = None\<rparr>"
    by (simp add: temp_of_def float_or_nan_def py_float_def get_def)
  have h3: "lower_or_empty (get ?t ''type'') = Inr []" by (simp add: get_def lower_or_empty_def)
  have h4: "tags_lower demo_lib (get ?t ''tags'') = Inr []" by (simp add: get_def tags_lower_def)
  have h1: "lower_or_empty (get ?t ''eventType'') = Inr ''temp basal''"
    by (simp add: g l lower_or_empty_def)
  have ok: "\<forall>err. split_step demo_lib no_events ?t \<noteq> Inl err"
    by (simp add: split_step_def h1 h3 h4 h5 tb)
  show ?thesis
    using temp_basal_only [OF g l, of demo_lib no_events] ok
    by (auto simp: h5 tb no_events_def)
qed

lemma carbs_and_bolus_carbs:
  "carbs (carbs_and_bolus L ev t et t_type tags ts) =
     (case number (por (get t ''carbs'') (get t ''carb_input'')) of
        None \<Rightarrow> carbs ev
      | Some g \<Rightarrow> if g > 0 then carbs ev @ [\<lparr>carb_time = ts, grams = g\<rparr>] else carbs ev)"
  by (simp add: carbs_and_bolus_def Let_def split: option.splits)

text \<open>
  Claim C5, as amended. Take a treatment record that \<^verbatim>\<open>split_events\<close> reads without raising
  up to its classification (its \<^verbatim>\<open>eventType\<close> and \<^verbatim>\<open>type\<close> are each absent, false or a
  string, its \<^verbatim>\<open>tags\<close> absent, false, a list, a string or a dict, and the time normalizer
  returns an instant and does not raise), and whose lowercased event type is not
  "temp basal". In one pass it yields a carb intake of \<open>g\<close> grams exactly when the value of
  \<^verbatim>\<open>carbs\<close>, or of \<^verbatim>\<open>carb_input\<close> when \<^verbatim>\<open>carbs\<close> is absent or false, is a number \<open>g > 0\<close>,
  and, independently, one bolus of \<open>u\<close> units exactly when the first dose key that holds a
  number or a readable string gives \<open>u > 0\<close>; so a record with both yields both. The bolus
  is a micro bolus exactly when the lowercased event type, the lowercased type or one of
  the lowercased tags contains "smb", and a manual bolus otherwise. No temp basal is
  appended.
\<close>

theorem carbs_and_bolus_both:
  assumes "lower_or_empty (get t ''eventType'') = Inr et" and "et \<noteq> ''temp basal''"
    and "lower_or_empty (get t ''type'') = Inr t_type"
    and "tags_lower L (get t ''tags'') = Inr tags"
    and "treatment_ts L t = Inr (Some ts)"
  shows "\<exists>ev'. split_step L ev t = Inr ev' \<and> temps ev' = temps ev \<and>
     carbs ev' =
       (case number (por (get t ''carbs'') (get t ''carb_input'')) of
          None \<Rightarrow> carbs ev
        | Some g \<Rightarrow> if g > 0 then carbs ev @ [\<lparr>carb_time = ts, grams = g\<rparr>] else carbs ev) \<and>
     (case first_dose L t of
        None \<Rightarrow> bolus_big ev' = bolus_big ev \<and> bolus_mini ev' = bolus_mini ev
      | Some u \<Rightarrow>
          if u > 0 then
            (if contains ''smb'' et \<or> contains ''smb'' t_type \<or> (\<exists>tg \<in> set tags. contains ''smb'' tg)
             then bolus_mini ev' = bolus_mini ev @ [\<lparr>bolus_time = ts, units = u, is_smb = True\<rparr>]
                  \<and> bolus_big ev' = bolus_big ev
             else bolus_big ev' = bolus_big ev @ [\<lparr>bolus_time = ts, units = u, is_smb = False\<rparr>]
                  \<and> bolus_mini ev' = bolus_mini ev)
          else bolus_big ev' = bolus_big ev \<and> bolus_mini ev' = bolus_mini ev)"
proof -
  let ?ev' = "carbs_and_bolus L ev t et t_type tags ts"
  have step: "split_step L ev t = Inr ?ev'" using assms by (rule split_step_other)
  have bol: "(case first_dose L t of
        None \<Rightarrow> bolus_big ?ev' = bolus_big ev \<and> bolus_mini ?ev' = bolus_mini ev
      | Some u \<Rightarrow>
          if u > 0 then
            (if contains ''smb'' et \<or> contains ''smb'' t_type \<or> (\<exists>tg \<in> set tags. contains ''smb'' tg)
             then bolus_mini ?ev' = bolus_mini ev @ [\<lparr>bolus_time = ts, units = u, is_smb = True\<rparr>]
                  \<and> bolus_big ?ev' = bolus_big ev
             else bolus_big ?ev' = bolus_big ev @ [\<lparr>bolus_time = ts, units = u, is_smb = False\<rparr>]
                  \<and> bolus_mini ?ev' = bolus_mini ev)
          else bolus_big ?ev' = bolus_big ev \<and> bolus_mini ?ev' = bolus_mini ev)"
    by (simp add: carbs_and_bolus_boluses smb_marked_iff split: option.splits)
  show ?thesis
    using step bol carbs_and_bolus_carbs [of L ev t et t_type tags ts]
      carbs_and_bolus_boluses(3) [of L ev t et t_type tags ts]
    by (intro exI [of _ ?ev']) (simp only: simp_thms)
qed

theorem carbs_and_bolus_both_witness:
  "split_step demo_lib no_events
     [(''carbs'', JInt 20), (''insulin'', JFloat (3 / 2)),
      (''created_at'', JStr ''2024-01-01T00:00:00Z'')] =
   Inr \<lparr>bolus_big = [\<lparr>bolus_time = 1704067200000000, units = 3 / 2, is_smb = False\<rparr>],
        bolus_mini = [],
        carbs = [\<lparr>carb_time = 1704067200000000, grams = 20\<rparr>], temps = []\<rparr>"
proof -
  let ?t = "[(''carbs'', JInt 20), (''insulin'', JFloat (3 / 2)),
      (''created_at'', JStr ''2024-01-01T00:00:00Z'')]"
  have ex: "\<exists>y::real. y * 2 = 3" by (rule exI [of _ "3 / 2"]) simp
  have fd: "first_dose demo_lib ?t = Some (3 / 2)"
    by (simp add: first_dose_def dose_value_def DOSE_KEYS_def get_def ex)
  have cv: "number (por (get ?t ''carbs'') (get ?t ''carb_input'')) = Some 20"
    by (simp add: get_def por_def)
  have h1: "lower_or_empty (get ?t ''eventType'') = Inr []" by (simp add: get_def lower_or_empty_def)
  have h2: "[] \<noteq> ''temp basal''" by simp
  have h3: "lower_or_empty (get ?t ''type'') = Inr []" by (simp add: get_def lower_or_empty_def)
  have h4: "tags_lower demo_lib (get ?t ''tags'') = Inr []" by (simp add: get_def tags_lower_def)
  have h5: "treatment_ts demo_lib ?t = Inr (Some 1704067200000000)"
    by (simp add: treatment_ts_def get_def por_def parse_iso_def demo_lib_def)
  have sm: "\<not> contains ''smb'' []" by simp
  show ?thesis
    using carbs_and_bolus_both [OF h1 h2 h3 h4 h5, of no_events] fd cv sm
    by (auto simp: no_events_def)
qed

text \<open>
  Claim C5 as stated fails on a temp-basal record: with 20 g under \<^verbatim>\<open>carbs\<close>, 1.5 U under
  \<^verbatim>\<open>insulin\<close> and a timestamp, \<^verbatim>\<open>split_events\<close> returns one temp basal, no carb intake and
  no bolus.
\<close>

theorem carbs_and_bolus_both_counterexample:
  "number (por (get [(''eventType'', JStr ''Temp Basal''), (''carbs'', JInt 20),
                     (''insulin'', JFloat (3 / 2)),
                     (''created_at'', JStr ''2024-01-01T00:00:00Z'')] ''carbs'')
               (get [(''eventType'', JStr ''Temp Basal''), (''carbs'', JInt 20),
                     (''insulin'', JFloat (3 / 2)),
                     (''created_at'', JStr ''2024-01-01T00:00:00Z'')] ''carb_input'')) = Some 20
   \<and> search_units demo_lib [(''eventType'', JStr ''Temp Basal''), (''carbs'', JInt 20),
                     (''insulin'', JFloat (3 / 2)),
                     (''created_at'', JStr ''2024-01-01T00:00:00Z'')] DOSE_KEYS = Some (3 / 2)
   \<and> split_events demo_lib
       [[(''eventType'', JStr ''Temp Basal''), (''carbs'', JInt 20),
         (''insulin'', JFloat (3 / 2)),
         (''created_at'', JStr ''2024-01-01T00:00:00Z'')]] =
     Inr \<lparr>bolus_big = [], bolus_mini = [], carbs = [],
          temps = [\<lparr>start = 1704067200000000, duration = 0, percent = None, absolute = None\<rparr>]\<rparr>"
proof -
  let ?t = "[(''eventType'', JStr ''Temp Basal''), (''carbs'', JInt 20),
            (''insulin'', JFloat (3 / 2)), (''created_at'', JStr ''2024-01-01T00:00:00Z'')]"
  have cv: "number (por (get ?t ''carbs'') (get ?t ''carb_input'')) = Some 20"
    by (simp add: get_def por_def)
  have ex: "\<exists>y::real. y * 2 = 3" by (rule exI [of _ "3 / 2"]) simp
  have su: "search_units demo_lib ?t DOSE_KEYS = Some (3 / 2)"
    by (simp add: DOSE_KEYS_def get_def ex)
  have l: "lower ''Temp Basal'' = ''temp basal''" by (simp add: lower_def lower_char_def)
  have h1: "lower_or_empty (get ?t ''eventType'') = Inr ''temp basal''"
    by (simp add: get_def l lower_or_empty_def)
  have h3: "lower_or_empty (get ?t ''type'') = Inr []" by (simp add: get_def lower_or_empty_def)
  have h4: "tags_lower demo_lib (get ?t ''tags'') = Inr []" by (simp add: get_def tags_lower_def)
  have h5: "treatment_ts demo_lib ?t = Inr (Some 1704067200000000)"
    by (simp add: treatment_ts_def get_def por_def parse_iso_def demo_lib_def)
  have tb: "temp_of demo_lib ?t 1704067200000000 =
      Inr \<lparr>start = 1704067200000000, duration = 0, percent = None, absolute = None\<rparr>"
    by (simp add: temp_of_def float_or_nan_def get_def)
  have "split_step demo_lib no_events ?t =
     Inr \<lparr>bolus_big = [], bolus_mini = [], carbs = [],
          temps = [\<lparr>start = 1704067200000000, duration = 0, percent = None, absolute = None\<rparr>]\<rparr>"
    by (simp add: split_step_def h1 h3 h4 h5 tb no_events_def)
  then have "split_events demo_lib [?t] =
     Inr \<lparr>bolus_big = [], bolus_mini = [], carbs = [],
          temps = [\<lparr>start = 1704067200000000, duration = 0, percent = None, absolute = None\<rparr>]\<rparr>"
    by (simp add: split_events_def)
  with cv su show ?thesis by simp
qed

section \<open>Properties of the time normalizer\<close>

text \<open>
  Claim C3 does not hold of \<^verbatim>\<open>fetch_entries\<close> and \<^verbatim>\<open>split_events\<close>: the epoch field is
  read only when no string field is present. A glucose entry and a treatment whose string
  timestamp cannot be parsed are dropped although each carries a valid epoch field, which
  \<^verbatim>\<open>fetch_latest_sensor_change\<close> does use for the same treatment.
\<close>

theorem unparseable_string_no_fallback:
  "fetch_entries_rows demo_lib
     [[(''sgv'', JInt 100), (''dateString'', JStr ''garbage''),
       (''date'', JInt 1704067200000)]] = Inr []
   \<and> split_events demo_lib
     [[(''insulin'', JFloat (3 / 2)), (''created_at'', JStr ''garbage''),
       (''mills'', JInt 1704067200000)]] = Inr no_events
   \<and> sensor_change_ts demo_lib
     [(''insulin'', JFloat (3 / 2)), (''created_at'', JStr ''garbage''),
      (''mills'', JInt 1704067200000)] = Some 1704067200000000
   \<and> epoch_ms demo_lib (JInt 1704067200000) = Inr (Some 1704067200000000)"
proof -
  let ?e = "[(''sgv'', JInt 100), (''dateString'', JStr ''garbage''),
       (''date'', JInt 1704067200000)]"
  let ?t = "[(''insulin'', JFloat (3 / 2)), (''created_at'', JStr ''garbage''),
       (''mills'', JInt 1704067200000)]"
  have ep: "epoch_ms demo_lib (JInt 1704067200000) = Inr (Some 1704067200000000)"
    by (simp add: epoch_ms_def fromtimestamp_ms_def demo_lib_def)
  have ets: "entry_ts demo_lib ?e = Inr None"
    by (simp add: entry_ts_def get_def por_def parse_iso_def demo_lib_def)
  have row: "fetch_entries_row demo_lib ?e = Inr None"
    by (simp add: fetch_entries_row_def ets get_def por_def)
  have a: "fetch_entries_rows demo_lib [?e] = Inr []"
    by (simp add: fetch_entries_rows_def row)
  have tts: "treatment_ts demo_lib ?t = Inr None"
    by (simp add: treatment_ts_def get_def por_def parse_iso_def demo_lib_def)
  have h1: "lower_or_empty (get ?t ''eventType'') = Inr []" by (simp add: get_def lower_or_empty_def)
  have h3: "lower_or_empty (get ?t ''type'') = Inr []" by (simp add: get_def lower_or_empty_def)
  have h4: "tags_lower demo_lib (get ?t ''tags'') = Inr []" by (simp add: get_def tags_lower_def)
  have "split_step demo_lib no_events ?t = Inr no_events"
    by (simp add: split_step_def h1 h3 h4 tts)
  then have b: "split_events demo_lib [?t] = Inr no_events"
    by (simp add: split_events_def)
  have g: "por (get ?t ''mills'') (get ?t ''date'') = JInt 1704067200000"
    by (simp add: get_def por_def)
  have pi: "parse_iso demo_lib (JStr ''garbage'') = None"
    by (simp add: parse_iso_def demo_lib_def)
  have r: "por (por (get ?t ''created_at'') (get ?t ''timestamp'')) (get ?t ''dateString'')
      = JStr ''garbage''"
    by (simp add: get_def por_def)
  have c: "sensor_change_ts demo_lib ?t = Some 1704067200000000"
    by (simp add: sensor_change_ts_def g r pi ep)
  from a b c ep show ?thesis by simp
qed

section \<open>Properties of the metric estimator\<close>











lemma iob_loop_append:
  "iob_loop L now tot (xs @ ys) =
     (case iob_loop L now tot xs of Inl err \<Rightarrow> Inl err | Inr tot' \<Rightarrow> iob_loop L now tot' ys)"
  by (induction xs arbitrary: tot) (simp_all split: sum.splits)

lemma widget_iob_loop_append:
  "widget_iob_loop L now tot (xs @ ys) =
     (case widget_iob_loop L now tot xs of
        Inl err \<Rightarrow> Inl err
      | Inr tot' \<Rightarrow> widget_iob_loop L now tot' ys)"
  by (induction xs arbitrary: tot) (simp_all split: sum.splits)

lemma future_age_negative:
  assumes "now < ts"
  shows "age_minutes now ts < 0"
  using assms by (simp add: age_minutes_def divide_less_0_iff)

lemma iob_step_future:
  assumes "treatment_ts L t = Inr (Some ts)" and "now < ts"
  shows "iob_step L now tot t = Inr tot" and "widget_iob_step L now tot t = Inr tot"
  using assms(1) future_age_negative [OF assms(2)]
  by (simp_all add: iob_step_def widget_iob_step_def Let_def split: option.splits)

text \<open>
  Claim C10. A treatment record whose timestamp lies after the evaluation time leaves the
  running total of both estimators as it was, and taking it out of the list of treatments
  changes the result of neither, whatever its dose and whatever the other records are.
\<close>

theorem future_treatment_contributes_nothing:
  assumes "treatment_ts L t = Inr (Some ts)" and "now < ts"
  shows "iob_step L now tot t = Inr tot \<and> widget_iob_step L now tot t = Inr tot \<and>
         fallback_bolus_iob L now (pre @ t # post) = fallback_bolus_iob L now (pre @ post) \<and>
         widget_fallback_bolus_iob L now (pre @ t # post) =
           widget_fallback_bolus_iob L now (pre @ post)"
  by (simp add: fallback_bolus_iob_def widget_fallback_bolus_iob_def iob_loop_append
      widget_iob_loop_append iob_step_future [OF assms] split: sum.splits)

theorem future_treatment_contributes_nothing_witness:
  "fallback_bolus_iob demo_lib 1704065400000000
     [[(''insulin'', JInt 2), (''mills'', JInt 1704061800000)],
      [(''insulin'', JInt 1), (''created_at'', JStr ''2024-01-01T00:00:00Z'')]] = Inr 1
   \<and> widget_fallback_bolus_iob demo_lib 1704065400000000
     [[(''insulin'', JInt 2), (''mills'', JInt 1704061800000)],
      [(''insulin'', JInt 1), (''created_at'', JStr ''2024-01-01T00:00:00Z'')]] = Inr 1"
proof -
  let ?t1 = "[(''insulin'', JInt 1), (''created_at'', JStr ''2024-01-01T00:00:00Z'')]"
  let ?t2 = "[(''insulin'', JInt 2), (''mills'', JInt 1704061800000)]"
  have u2: "units_of demo_lib ?t2 = Some 2"
    by (simp add: units_of_def DOSE_KEYS_def get_def)
  have ts1: "treatment_ts demo_lib ?t1 = Inr (Some 1704067200000000)"
    by (simp add: treatment_ts_def get_def por_def parse_iso_def demo_lib_def)
  have ts2: "treatment_ts demo_lib ?t2 = Inr (Some 1704061800000000)"
    by (simp add: treatment_ts_def get_def por_def epoch_ms_def fromtimestamp_ms_def demo_lib_def)
  have fut: "(1704065400000000 :: int) < 1704067200000000" by simp
  have ag: "age_minutes 1704065400000000 1704061800000000 = 60"
    by (simp add: age_minutes_def)
  have a: "iob_step demo_lib 1704065400000000 0 ?t2 = Inr 1"
    by (simp add: iob_step_def u2 ts2 ag DIA_MINUTES_def T_HALF_def)
  have b: "widget_iob_step demo_lib 1704065400000000 0 ?t2 = Inr 1"
    by (simp add: widget_iob_step_def u2 ts2 ag)
  have c: "fallback_bolus_iob demo_lib 1704065400000000 ([?t2] @ []) = Inr 1"
    by (simp add: fallback_bolus_iob_def a)
  have d: "widget_fallback_bolus_iob demo_lib 1704065400000000 ([?t2] @ []) = Inr 1"
    by (simp add: widget_fallback_bolus_iob_def b)
  show ?thesis
    using future_treatment_contributes_nothing [OF ts1 fut, of 0 "[?t2]" "[]"] c d
    by simp
qed

subsection \<open>The trend arrow\<close>

lemma sum_list_affine:
  "sum_list (map (\<lambda>x. a + b * x) xs) = real (length xs) * a + b * sum_list xs"
  by (induction xs) (simp_all add: algebra_simps)

lemma sum_list_affine_product:
  "sum_list (map (\<lambda>(x, y). x * y) (zip xs (map (\<lambda>x. a + b * x) xs))) =
     (a::real) * sum_list xs + b * sum_list (map (\<lambda>x. x * x) xs)"
proof (induction xs)
  case Nil
  show ?case by simp
next
  case (Cons x xs)
  have "x * (a + b * x) + (a * sum_list xs + b * sum_list (map (\<lambda>x. x * x) xs)) =
      a * (x + sum_list xs) + b * (x * x + sum_list (map (\<lambda>x. x * x) xs))"
    by (simp add: algebra_simps)
  with Cons show ?case by simp
qed

lemma sum_list_squares_shift:
  "sum_list (map (\<lambda>x. (x - m) * (x - m)) xs) =
     sum_list (map (\<lambda>x. x * x) xs) - 2 * m * sum_list xs + real (length xs) * (m * m)"
  for m :: real
  by (induction xs) (simp_all add: algebra_simps)

lemma sum_list_squares_pos:
  assumes "x \<in> set xs" and "x \<noteq> (m::real)"
  shows "0 < sum_list (map (\<lambda>x. (x - m) * (x - m)) xs)"
  using assms
proof (induction xs)
  case Nil
  then show ?case by simp
next
  case (Cons y ys)
  have nn: "0 \<le> sum_list (map (\<lambda>x. (x - m) * (x - m)) ys)"
    by (rule sum_list_nonneg) auto
  show ?case
  proof (cases "x = y")
    case True
    with Cons.prems have "0 < (y - m) * (y - m)"
      by (auto simp: zero_less_mult_iff neq_iff)
    with nn show ?thesis by simp
  next
    case False
    with Cons have "0 < sum_list (map (\<lambda>x. (x - m) * (x - m)) ys)" by simp
    moreover have "0 \<le> (y - m) * (y - m)" by simp
    ultimately have "0 < (y - m) * (y - m) + sum_list (map (\<lambda>x. (x - m) * (x - m)) ys)"
      by linarith
    then show ?thesis by simp
  qed
qed

lemma lsq_denominator_pos:
  assumes "x1 \<in> set xs" and "x2 \<in> set xs" and "x1 \<noteq> (x2::real)"
  shows "0 < real (length xs) * sum_list (map (\<lambda>x. x * x) xs) - sum_list xs * sum_list xs"
proof -
  have ne: "xs \<noteq> []" using assms(1) by auto
  then have n: "0 < real (length xs)" by simp
  define m where "m = sum_list xs / real (length xs)"
  have "x1 \<noteq> m \<or> x2 \<noteq> m" using assms(3) by auto
  then have pos: "0 < sum_list (map (\<lambda>x. (x - m) * (x - m)) xs)"
    using assms(1,2) sum_list_squares_pos by blast
  have nm: "real (length xs) * m = sum_list xs" using n by (simp add: m_def)
  have "real (length xs) * sum_list (map (\<lambda>x. (x - m) * (x - m)) xs) =
      real (length xs) * (sum_list (map (\<lambda>x. x * x) xs) - 2 * m * sum_list xs
        + real (length xs) * (m * m))"
    by (simp only: sum_list_squares_shift)
  also have "\<dots> = real (length xs) * sum_list (map (\<lambda>x. x * x) xs)
      - 2 * (real (length xs) * m) * sum_list xs
      + (real (length xs) * m) * (real (length xs) * m)"
    by (simp add: algebra_simps)
  also have "\<dots> = real (length xs) * sum_list (map (\<lambda>x. x * x) xs) - sum_list xs * sum_list xs"
    by (simp only: nm)
  finally show ?thesis using pos n by (metis mult_pos_pos)
qed

lemma lsq_slope_affine:
  assumes "x1 \<in> set xs" and "x2 \<in> set xs" and "x1 \<noteq> x2"
  shows "lsq_slope xs (map (\<lambda>x. a + b * x) xs) = Some b"
proof -
  let ?n = "real (length xs)"
  let ?sx = "sum_list xs"
  let ?sxx = "sum_list (map (\<lambda>x. x * x) xs)"
  have d: "?n * ?sxx - ?sx * ?sx \<noteq> 0"
    using lsq_denominator_pos [OF assms] by simp
  have num: "?n * (a * ?sx + b * ?sxx) - ?sx * (?n * a + b * ?sx) = b * (?n * ?sxx - ?sx * ?sx)"
    by (simp add: algebra_simps)
  show ?thesis
    using d by (simp add: lsq_slope_def Let_def sum_list_affine sum_list_affine_product num)
qed


lemma fit_rows_window:
  "fit_rows entries =
     (if length (trailing_window entries) < 2 then drop (length entries - 5) entries
      else trailing_window entries)"
  by (simp add: fit_rows_def trailing_window_def Let_def)

lemma fit_rows_length:
  assumes "3 \<le> length entries"
  shows "2 \<le> length (fit_rows entries)"
  using assms by (auto simp: fit_rows_window)

lemma shifted_seconds:
  assumes "df \<noteq> []"
  shows "map ((\<lambda>v. v - hd (map (\<lambda>r. real_of_int (fst r) / 1000000) df)) \<circ>
              (\<lambda>r. real_of_int (fst r) / 1000000)) df = seconds_since_first df"
  using assms by (simp add: seconds_since_first_def row_seconds_def hd_map)

lemma compute_arrow_fit:
  assumes "3 \<le> length entries"
  shows "compute_arrow_from_slope polyfit1 entries =
     (case polyfit1 (seconds_since_first (fit_rows entries)) (map snd (fit_rows entries)) of
        None \<Rightarrow> None
      | Some slope_per_s \<Rightarrow> arrow_of_slope (slope_per_s * 900))"
proof -
  have len: "2 \<le> length (fit_rows entries)" using assms by (rule fit_rows_length)
  then have ne: "fit_rows entries \<noteq> []" by auto
  have ne': "entries \<noteq> []" using assms by auto
  show ?thesis
    using len ne' assms
    by (simp add: compute_arrow_from_slope_def Let_def shifted_seconds [OF ne]
        split: option.splits)
qed

lemma arrow_of_slope_classes:
  "(arrow_of_slope v = Some SingleUp \<longleftrightarrow> 0.5 \<le> v)"
  "(arrow_of_slope v = Some FortyFiveUp \<longleftrightarrow> 0.2 \<le> v \<and> v < 0.5)"
  "(arrow_of_slope v = Some Flat \<longleftrightarrow> - 0.2 < v \<and> v < 0.2)"
  "(arrow_of_slope v = Some FortyFiveDown \<longleftrightarrow> - 0.5 < v \<and> v \<le> - 0.2)"
  "(arrow_of_slope v = Some SingleDown \<longleftrightarrow> v \<le> - 0.5)"
  by (auto simp: arrow_of_slope_def)

lemma fitted_line_slope:
  assumes "\<forall>r \<in> set df. snd r = a + b * row_seconds r"
    and "r1 \<in> set df" and "r2 \<in> set df" and "fst r1 \<noteq> fst r2"
  shows "lsq_slope (seconds_since_first df) (map snd df) = Some b"
proof -
  let ?x0 = "row_seconds (hd df)"
  let ?xs = "seconds_since_first df"
  have ys: "map snd df = map (\<lambda>x. (a + b * ?x0) + b * x) ?xs"
    using assms(1) by (simp add: seconds_since_first_def algebra_simps)
  have m1: "row_seconds r1 - ?x0 \<in> set ?xs" using assms(2) by (simp add: seconds_since_first_def)
  have m2: "row_seconds r2 - ?x0 \<in> set ?xs" using assms(3) by (simp add: seconds_since_first_def)
  have ne: "row_seconds r1 - ?x0 \<noteq> row_seconds r2 - ?x0"
    using assms(4) by (simp add: row_seconds_def)
  show ?thesis
    by (simp only: ys) (rule lsq_slope_affine [OF m1 m2 ne])
qed

text \<open>
  Claim C7. With fewer than three readings \<^verbatim>\<open>compute_arrow_from_slope\<close> returns no arrow.
  With three or more it fits the readings of the trailing 15 minutes, or the last five
  readings when fewer than two are that recent, and maps the fitted slope, taken per 15
  minutes, to an arrow: up from 0.5, 45 degrees up in [0.2, 0.5), flat in (-0.2, 0.2),
  45 degrees down in (-0.5, -0.2], down to -0.5. When the fitted readings lie on a line
  and the fit is the exact least-squares fit, the arrow is that of the line's slope; a
  series that rises exactly 0.5 over 15 minutes gets the arrow up. Floats are reals here,
  and \<^verbatim>\<open>np.polyfit\<close> is a parameter.
\<close>

theorem compute_arrow_from_slope_thresholds:
  "(length entries < 3 \<longrightarrow> compute_arrow_from_slope polyfit1 entries = None)
   \<and> (3 \<le> length entries \<longrightarrow>
        fit_rows entries =
          (if length (trailing_window entries) < 2 then drop (length entries - 5) entries
           else trailing_window entries)
        \<and> compute_arrow_from_slope polyfit1 entries =
            (case polyfit1 (seconds_since_first (fit_rows entries)) (map snd (fit_rows entries)) of
               None \<Rightarrow> None
             | Some slope_per_s \<Rightarrow> arrow_of_slope (slope_per_s * 900)))
   \<and> (arrow_of_slope v = Some SingleUp \<longleftrightarrow> 0.5 \<le> v)
   \<and> (arrow_of_slope v = Some FortyFiveUp \<longleftrightarrow> 0.2 \<le> v \<and> v < 0.5)
   \<and> (arrow_of_slope v = Some Flat \<longleftrightarrow> - 0.2 < v \<and> v < 0.2)
   \<and> (arrow_of_slope v = Some FortyFiveDown \<longleftrightarrow> - 0.5 < v \<and> v \<le> - 0.2)
   \<and> (arrow_of_slope v = Some SingleDown \<longleftrightarrow> v \<le> - 0.5)
   \<and> (3 \<le> length entries
        \<and> (\<forall>r \<in> set (fit_rows entries). snd r = a + b * row_seconds r)
        \<and> (\<exists>r1 \<in> set (fit_rows entries). \<exists>r2 \<in> set (fit_rows entries). fst r1 \<noteq> fst r2)
        \<longrightarrow> compute_arrow_from_slope lsq_slope entries = arrow_of_slope (b * 900))"
proof (intro conjI impI)
  assume "length entries < 3"
  then show "compute_arrow_from_slope polyfit1 entries = None"
    by (simp add: compute_arrow_from_slope_def)
next
  show "fit_rows entries =
          (if length (trailing_window entries) < 2 then drop (length entries - 5) entries
           else trailing_window entries)"
    by (rule fit_rows_window)
next
  assume "3 \<le> length entries"
  then show "compute_arrow_from_slope polyfit1 entries =
            (case polyfit1 (seconds_since_first (fit_rows entries)) (map snd (fit_rows entries)) of
               None \<Rightarrow> None
             | Some slope_per_s \<Rightarrow> arrow_of_slope (slope_per_s * 900))"
    by (rule compute_arrow_fit)
next
  show "arrow_of_slope v = Some SingleUp \<longleftrightarrow> 0.5 \<le> v" by (rule arrow_of_slope_classes)
next
  show "arrow_of_slope v = Some FortyFiveUp \<longleftrightarrow> 0.2 \<le> v \<and> v < 0.5"
    by (rule arrow_of_slope_classes)
next
  show "arrow_of_slope v = Some Flat \<longleftrightarrow> - 0.2 < v \<and> v < 0.2"
    by (rule arrow_of_slope_classes)
next
  show "arrow_of_slope v = Some FortyFiveDown \<longleftrightarrow> - 0.5 < v \<and> v \<le> - 0.2"
    by (rule arrow_of_slope_classes)
next
  show "arrow_of_slope v = Some SingleDown \<longleftrightarrow> v \<le> - 0.5"
    by (rule arrow_of_slope_classes)
next
  assume h: "3 \<le> length entries
        \<and> (\<forall>r \<in> set (fit_rows entries). snd r = a + b * row_seconds r)
        \<and> (\<exists>r1 \<in> set (fit_rows entries). \<exists>r2 \<in> set (fit_rows entries). fst r1 \<noteq> fst r2)"
  then obtain r1 r2 where r: "r1 \<in> set (fit_rows entries)" "r2 \<in> set (fit_rows entries)"
      "fst r1 \<noteq> fst r2" by blast
  from h have line: "\<forall>r \<in> set (fit_rows entries). snd r = a + b * row_seconds r" by blast
  from h have len: "3 \<le> length entries" by blast
  have "lsq_slope (seconds_since_first (fit_rows entries)) (map snd (fit_rows entries)) = Some b"
    using line r by (rule fitted_line_slope)
  then show "compute_arrow_from_slope lsq_slope entries = arrow_of_slope (b * 900)"
    by (simp add: compute_arrow_fit [OF len])
qed

theorem compute_arrow_from_slope_thresholds_witness:
  "compute_arrow_from_slope lsq_slope
     [(- 600000000, 9), (0, 5), (180000000, 51 / 10), (360000000, 26 / 5),
      (540000000, 53 / 10), (720000000, 27 / 5), (900000000, 11 / 2)] = Some SingleUp
   \<and> compute_arrow_from_slope lsq_slope [(0, 5), (900000000, 11 / 2)] = None"
proof -
  let ?es = "[(- 600000000, 9), (0, 5), (180000000, 51 / 10), (360000000, 26 / 5),
      (540000000, 53 / 10), (720000000, 27 / 5), (900000000, 11 / 2)] :: (instant \<times> real) list"
  let ?two = "[(0, 5), (900000000, 11 / 2)] :: (instant \<times> real) list"
  have fr: "fit_rows ?es = [(0, 5), (180000000, 51 / 10), (360000000, 26 / 5),
      (540000000, 53 / 10), (720000000, 27 / 5), (900000000, 11 / 2)]"
    by (simp add: fit_rows_def MINUTE_def Let_def)
  have line: "\<forall>r \<in> set (fit_rows ?es). snd r = 5 + (1 / 1800) * row_seconds r"
    by (simp add: fr row_seconds_def)
  have m1: "(0, 5) \<in> set (fit_rows ?es)" by (simp add: fr)
  have m2: "(900000000, 11 / 2) \<in> set (fit_rows ?es)" by (simp add: fr)
  have ne: "fst (0 :: instant, 5 :: real) \<noteq> fst (900000000 :: instant, 11 / 2 :: real)"
    by simp
  have two: "\<exists>r1 \<in> set (fit_rows ?es). \<exists>r2 \<in> set (fit_rows ?es). fst r1 \<noteq> fst r2"
    using m1 m2 ne by blast
  have len: "3 \<le> length ?es" by simp
  have short: "length ?two < 3" by simp
  have up: "arrow_of_slope (1 / 1800 * 900) = Some SingleUp"
    by (simp add: arrow_of_slope_def)
  have a: "compute_arrow_from_slope lsq_slope ?es = arrow_of_slope (1 / 1800 * 900)"
    using compute_arrow_from_slope_thresholds
      [of ?es lsq_slope 0 5 "1 / 1800"]
      len line two
    by blast
  have b: "compute_arrow_from_slope lsq_slope ?two = None"
    using compute_arrow_from_slope_thresholds
      [of ?two lsq_slope 0 5 "1 / 1800"]
      short
    by blast
  from a b up show ?thesis by (simp only: simp_thms)
qed

end
